theory Spec2Isabelle
  imports Main "HOL-Library.Char_ord" "HOL-Library.List_Lexorder" "HOL-Library.Sublist"
    "HOL-Library.Multiset" "HOL-Library.AList"
begin

section \<open>Exceptions of the backup package\<close>

text \<open>
  The package raises its own exception classes (\<open>UtilsException\<close>, \<open>RsyncException\<close>,
  \<open>UploadBackupException\<close>, \<open>DownloadBackupException\<close>, \<open>GnupgException\<close>), each built
  from a code of \<open>ExceptionCodes\<close> and a parameter list. Only the codes the modelled
  functions raise are listed; \<open>DefaultExceptionCode\<close> stands for an exception built with
  \<open>parameters=...\<close> alone. A raise is the \<open>Inl\<close> branch of a sum.
\<close>

datatype exception_code =
    NotEnoughFreeDiskSpace
  | EmptyValue
  | InvalidPath
  | CannotAccessHost
  | CannotParseValue
  | CannotRemovePath
  | CannotRemoveFile
  | CannotCreatePath
  | ErrorSortingOffsiteBackupList
  | WrongTypeError
  | NoFilesToSend
  | ExceedTryOuts
  | RsyncTransferNumberFilesDiffer
  | NoVolumeListForBackup
  | NoMetadataForBackup
  | FailedToGetProcessedVolsNamesOffsite
  | EncryptError
  | TarCommandError
  | DefaultExceptionCode

datatype exception_class =
    UtilsException
  | RsyncException
  | UploadBackupException
  | DownloadBackupException
  | GnupgException

datatype param = PStr string | PInt int | PStrs "string list"

datatype bur_exception = Raise exception_class exception_code "param list"

fun exc_class :: "bur_exception \<Rightarrow> exception_class" where
  "exc_class (Raise k c ps) = k"

fun exc_code :: "bur_exception \<Rightarrow> exception_code" where
  "exc_code (Raise k c ps) = c"

fun exc_params :: "bur_exception \<Rightarrow> param list" where
  "exc_params (Raise k c ps) = ps"

section \<open>Python string operations\<close>

text \<open>
  Python 2 byte strings are \<open>string\<close>. \<open>str.strip()\<close> and \<open>str.split()\<close> without
  arguments work on the six ASCII whitespace characters; \<open>str.split(sep)\<close> cuts at the
  leftmost occurrences of \<open>sep\<close>, keeping empty pieces.
\<close>

definition py_isspace :: "char \<Rightarrow> bool" where
  "py_isspace c = (c = CHR 0x20 \<or> c = CHR 0x09 \<or> c = CHR 0x0A \<or> c = CHR 0x0B
                   \<or> c = CHR 0x0C \<or> c = CHR 0x0D)"

definition py_strip :: "string \<Rightarrow> string" where
  "py_strip s = rev (dropWhile py_isspace (rev (dropWhile py_isspace s)))"

text \<open>\<open>s.split()\<close>: \<open>cur\<close> is the token being read, reversed.\<close>

fun split_ws_from :: "string \<Rightarrow> string \<Rightarrow> string list" where
  "split_ws_from cur [] = (if cur = [] then [] else [rev cur])"
| "split_ws_from cur (c # cs) =
     (if py_isspace c
      then (if cur = [] then split_ws_from [] cs else rev cur # split_ws_from [] cs)
      else split_ws_from (c # cur) cs)"

definition py_split_ws :: "string \<Rightarrow> string list" where
  "py_split_ws s = split_ws_from [] s"

text \<open>
  \<open>s.split(sep)\<close> for a non-empty \<open>sep\<close> (Python raises ValueError on an empty
  separator; every call in the package passes a literal).
\<close>

function split_sep_from :: "string \<Rightarrow> string \<Rightarrow> string \<Rightarrow> string list" where
  "split_sep_from sep cur [] = [rev cur]"
| "split_sep_from sep cur (c # cs) =
     (if sep \<noteq> [] \<and> prefix sep (c # cs)
      then rev cur # split_sep_from sep [] (drop (length sep - 1) cs)
      else split_sep_from sep (c # cur) cs)"
  by pat_completeness auto
termination
  by (relation "measure (\<lambda>(sep, cur, s). length s)") auto

definition py_split_sep :: "string \<Rightarrow> string \<Rightarrow> string list" where
  "py_split_sep sep s = split_sep_from sep [] s"

text \<open>\<open>s.replace(old, new)\<close> for a non-empty \<open>old\<close>: the pieces between the
  occurrences of \<open>old\<close>, joined by \<open>new\<close>.\<close>

definition py_replace :: "string \<Rightarrow> string \<Rightarrow> string \<Rightarrow> string" where
  "py_replace old new s =
     (case py_split_sep old s of
        [] \<Rightarrow> []
      | piece # pieces \<Rightarrow> piece @ concat (map (\<lambda>q. new @ q) pieces))"

text \<open>\<open>os.path.dirname\<close> and \<open>os.path.basename\<close> of posixpath.\<close>

definition path_head_raw :: "string \<Rightarrow> string" where
  "path_head_raw p = rev (dropWhile (\<lambda>c. c \<noteq> CHR ''/'') (rev p))"

definition basename :: "string \<Rightarrow> string" where
  "basename p = rev (takeWhile (\<lambda>c. c \<noteq> CHR ''/'') (rev p))"

definition dirname :: "string \<Rightarrow> string" where
  "dirname p =
     (let h = path_head_raw p in
      if h \<noteq> [] \<and> (\<exists>c \<in> set h. c \<noteq> CHR ''/'')
      then rev (dropWhile (\<lambda>c. c = CHR ''/'') (rev h))
      else h)"

section \<open>Disk-space precondition of the upload\<close>

text \<open>
  \<open>check_local_disk_space_for_upload\<close> (utils/backup_handler.py). The two measurements
  come from \<open>df\<close> and \<open>du\<close>; each either raises or gives a number of megabytes, and a
  raise of either leaves the function as it is.
\<close>

definition check_local_disk_space_for_upload ::
    "bur_exception + int \<Rightarrow> bur_exception + int \<Rightarrow> bur_exception + bool" where
  "check_local_disk_space_for_upload get_free_disk_space get_size_on_disk =
     (case get_free_disk_space of
        Inl e \<Rightarrow> Inl e
      | Inr free_disk_space_onsite_mb \<Rightarrow>
          (case get_size_on_disk of
             Inl e \<Rightarrow> Inl e
           | Inr bkp_size_mb \<Rightarrow>
               if free_disk_space_onsite_mb \<le> bkp_size_mb
               then Inl (Raise UtilsException NotEnoughFreeDiskSpace
                          [PInt bkp_size_mb, PInt free_disk_space_onsite_mb])
               else Inr True))"

section \<open>Remote commands over ssh\<close>

text \<open>
  utils/remote.py. The remote host is what \<open>ssh host bash\<close> answers to a command:
  standard output, standard error, and whether the timer killed the process before it
  ended. \<open>ssh_log\<close> records the commands that were really sent.
\<close>

record remote_host =
  ssh_exec :: "string \<Rightarrow> string \<Rightarrow> string \<times> string \<times> bool"
  ssh_log :: "(string \<times> string) list"

definition run_ssh_command ::
    "string \<Rightarrow> string \<Rightarrow> remote_host \<Rightarrow> (string \<times> string) \<times> remote_host" where
  "run_ssh_command host command w =
     (if py_strip host = [] \<or> py_strip command = [] then (([], []), w)
      else (case ssh_exec w host command of
              (stdout, stderr, timer_expired) \<Rightarrow>
                ((stdout,
                  if timer_expired
                  then ''Command '' @ [CHR 0x27] @ command @ [CHR 0x27] @ '' timeout.''
                  else stderr),
                 w\<lparr>ssh_log := ssh_log w @ [(host, command)]\<rparr>)))"

definition ssh_check_dir_command :: "string \<Rightarrow> string" where
  "ssh_check_dir_command path =
     [CHR 0x0A] @ ''    if [ -d '' @ path @ '' ] || [ -f '' @ path @ '' ]; then echo ''
     @ [CHR 0x22] @ ''DIR_IS_AVAILABLE'' @ [CHR 0x22] @ ''; fi'' @ [CHR 0x0A, CHR 0x0A]
     @ ''    ''"

definition check_remote_path_exists :: "string \<Rightarrow> string \<Rightarrow> remote_host \<Rightarrow> bool \<times> remote_host" where
  "check_remote_path_exists host path w =
     (if py_strip host = [] \<or> py_strip path = [] then (False, w)
      else (case run_ssh_command host (ssh_check_dir_command path) w of
              ((stdout, _), w') \<Rightarrow> (py_strip stdout = ''DIR_IS_AVAILABLE'', w')))"

text \<open>\<open>check_not_empty\<close> of utils/validator.py, on a string.\<close>

definition check_not_empty :: "string \<Rightarrow> bur_exception + bool" where
  "check_not_empty v =
     (if v = [] then Inl (Raise UtilsException EmptyValue [])
      else if py_strip v = [] then Inl (Raise UtilsException EmptyValue [])
      else Inr True)"

text \<open>
  Python's \<open>int(s)\<close> on a string: surrounding whitespace is dropped, one sign is allowed,
  and at least one decimal digit must follow; anything else is a ValueError (\<open>None\<close>).
\<close>

definition is_digit :: "char \<Rightarrow> bool" where
  "is_digit c = (CHR ''0'' \<le> c \<and> c \<le> CHR ''9'')"

definition digits_value :: "string \<Rightarrow> int" where
  "digits_value ds = foldl (\<lambda>acc c. 10 * acc + (int (of_char c) - 48)) 0 ds"

definition py_int :: "string \<Rightarrow> int option" where
  "py_int s =
     (case py_strip s of
        [] \<Rightarrow> None
      | c # cs \<Rightarrow>
          (let ds = (if c = CHR ''+'' \<or> c = CHR ''-'' then cs else c # cs) in
           if ds = [] \<or> \<not> list_all is_digit ds then None
           else Some (if c = CHR ''-'' then - digits_value ds else digits_value ds)))"

definition get_number_of_content_from_remote_path ::
    "string \<Rightarrow> string \<Rightarrow> remote_host \<Rightarrow> bur_exception + (int \<times> int)" where
  "get_number_of_content_from_remote_path host remote_path w =
     (case check_not_empty host of Inl e \<Rightarrow> Inl e | Inr _ \<Rightarrow>
      case check_not_empty remote_path of Inl e \<Rightarrow> Inl e | Inr _ \<Rightarrow>
      case fst (run_ssh_command host (''find '' @ remote_path @ '' -type f | wc -l'') w) of
        (files_out, error) \<Rightarrow>
          if error \<noteq> [] then Inl (Raise UtilsException CannotAccessHost
                                    [PStr host, PStr remote_path, PStr error])
          else
      case fst (run_ssh_command host
                  (''find '' @ remote_path @ '' -mindepth 1 -type d | wc -l'') w) of
        (folders_out, error) \<Rightarrow>
          if error \<noteq> [] then Inl (Raise UtilsException CannotAccessHost
                                    [PStr host, PStr remote_path, PStr error])
          else
      case py_int files_out of
        None \<Rightarrow> Inl (Raise UtilsException CannotParseValue [PStr files_out, PStr folders_out])
      | Some total_files \<Rightarrow>
      case py_int folders_out of
        None \<Rightarrow> Inl (Raise UtilsException CannotParseValue [PStr files_out, PStr folders_out])
      | Some total_folders \<Rightarrow> Inr (total_files, total_folders))"

definition is_remote_folder_empty :: "string \<Rightarrow> string \<Rightarrow> remote_host \<Rightarrow> bur_exception + bool" where
  "is_remote_folder_empty host remote_path w =
     (case get_number_of_content_from_remote_path host remote_path w of
        Inl e \<Rightarrow> Inl e
      | Inr (n_files, n_folders) \<Rightarrow> Inr (n_files + n_folders = 0))"

subsection \<open>Sorting remote folders by their oldest entry\<close>

definition find_cmd_for :: "string \<Rightarrow> string" where
  "find_cmd_for remote_folder =
     ''find '' @ remote_folder @ '' ! -path '' @ remote_folder @ '' -printf ''
     @ [CHR 0x22] @ ''%T+'' @ [CHR 0x09] @ ''%p'' @ [CHR 0x0A, CHR 0x22]
     @ '' | sort | head -1'' @ [CHR 0x0A] @ ''echo END_OF_COMMAND'' @ [CHR 0x0A]"

text \<open>
  The loop over \<open>stdout.split('END_OF_COMMAND')\<close>: a blank piece is skipped, a piece
  that does not split into two tokens raises, any other one adds the pair
  (directory of the path, timestamp).
\<close>

fun parse_find_results ::
    "string \<Rightarrow> string list \<Rightarrow> string list \<Rightarrow> bur_exception + (string \<times> string) list" where
  "parse_find_results host remote_folder_list [] = Inr []"
| "parse_find_results host remote_folder_list (find_cmd_result # rest) =
     (if py_strip find_cmd_result = [] then parse_find_results host remote_folder_list rest
      else
        (let find_cmd_result_split = py_split_ws find_cmd_result in
         if length find_cmd_result_split \<noteq> 2
         then Inl (Raise UtilsException ErrorSortingOffsiteBackupList
                    [PStr host, PStrs remote_folder_list, PStr (py_strip find_cmd_result)])
         else
           (let first_file_timestamp = py_strip (find_cmd_result_split ! 0);
                first_file_full_path = py_strip (find_cmd_result_split ! 1) in
            case parse_find_results host remote_folder_list rest of
              Inl e \<Rightarrow> Inl e
            | Inr file_timestamp_list \<Rightarrow>
                Inr ((dirname first_file_full_path, first_file_timestamp)
                     # file_timestamp_list))))"

text \<open>
  \<open>list.sort(l, key=..., reverse=True)\<close> is stable: Python reverses, sorts ascending
  and reverses again, so equal keys keep their order.
\<close>

definition sort_reverse_by_timestamp :: "(string \<times> string) list \<Rightarrow> (string \<times> string) list" where
  "sort_reverse_by_timestamp l = rev (sort_key snd (rev l))"

definition sort_remote_folders_by_content ::
    "string \<Rightarrow> string list \<Rightarrow> remote_host \<Rightarrow> bur_exception + string list" where
  "sort_remote_folders_by_content host remote_folder_list w =
     (if remote_folder_list = [] then Inr []
      else
        (case fst (run_ssh_command host (concat (map find_cmd_for remote_folder_list)) w) of
           (stdout, stderr) \<Rightarrow>
             if stderr \<noteq> []
             then Inl (Raise UtilsException ErrorSortingOffsiteBackupList
                        [PStr host, PStrs remote_folder_list, PStr stderr])
             else
               (case parse_find_results host remote_folder_list
                       (py_split_sep ''END_OF_COMMAND'' stdout) of
                  Inl e \<Rightarrow> Inl e
                | Inr file_timestamp_list \<Rightarrow>
                    Inr (map fst (sort_reverse_by_timestamp file_timestamp_list)))))"

subsection \<open>Retention: the backups to remove\<close>

text \<open>
  \<open>OffsiteBackupHandler.get_backup_dir_list_to_cleanup\<close>. The dictionary of remote backup
  paths by customer is the result of \<open>get_offsite_backup_dict\<close>; it is walked in the
  order of its items. \<open>filter\<close> of Python 2 returns a list and stops at the first
  exception of its predicate. The retention count was validated to be non-negative.
\<close>

fun filter_not_empty :: "string \<Rightarrow> remote_host \<Rightarrow> string list \<Rightarrow> bur_exception + string list" where
  "filter_not_empty host w [] = Inr []"
| "filter_not_empty host w (offsite_bkp_path # rest) =
     (case is_remote_folder_empty host offsite_bkp_path w of
        Inl e \<Rightarrow> Inl e
      | Inr is_empty \<Rightarrow>
          (case filter_not_empty host w rest of
             Inl e \<Rightarrow> Inl e
           | Inr kept \<Rightarrow> Inr (if is_empty then kept else offsite_bkp_path # kept)))"

definition cleanup_list_of_customer ::
    "string \<Rightarrow> nat \<Rightarrow> remote_host \<Rightarrow> string list \<Rightarrow> bur_exception + string list" where
  "cleanup_list_of_customer host offsite_retention w bkp_path_list =
     (case filter_not_empty host w bkp_path_list of
        Inl e \<Rightarrow> Inl e
      | Inr not_empty_bkp_path_list \<Rightarrow>
          if length not_empty_bkp_path_list > offsite_retention
          then (case sort_remote_folders_by_content host not_empty_bkp_path_list w of
                  Inl e \<Rightarrow> Inl e
                | Inr sorted_backup_list \<Rightarrow> Inr (drop offsite_retention sorted_backup_list))
          else Inr [])"

fun get_backup_dir_list_to_cleanup ::
    "string \<Rightarrow> nat \<Rightarrow> remote_host \<Rightarrow> (string \<times> string list) list \<Rightarrow> string list
       \<Rightarrow> bur_exception + string list" where
  "get_backup_dir_list_to_cleanup host offsite_retention w [] dir_to_be_removed_list =
     Inr dir_to_be_removed_list"
| "get_backup_dir_list_to_cleanup host offsite_retention w ((customer_key, paths) # rest)
       dir_to_be_removed_list =
     (case cleanup_list_of_customer host offsite_retention w paths of
        Inl e \<Rightarrow> Inl e
      | Inr to_remove \<Rightarrow>
          get_backup_dir_list_to_cleanup host offsite_retention w rest
            (dir_to_be_removed_list @ to_remove))"

section \<open>Reading a remote descriptor file\<close>

text \<open>
  \<open>OffsiteBackupHandler.retrieve_remote_pickle_file_content\<close>. \<open>pickle.load\<close> can give
  any Python object; the ones a descriptor could hold are listed.
\<close>

datatype py_object =
    PyNone
  | PyBool bool
  | PyInt int
  | PyString string
  | PyList "py_object list"
  | PyTuple "py_object list"
  | PyDict "(py_object \<times> py_object) list"

fun isinstance_list :: "py_object \<Rightarrow> bool" where
  "isinstance_list (PyList xs) = True"
| "isinstance_list _ = False"

fun is_py_string :: "py_object \<Rightarrow> bool" where
  "is_py_string (PyString s) = True"
| "is_py_string _ = False"

fun is_list_of_strings :: "py_object \<Rightarrow> bool" where
  "is_list_of_strings (PyList xs) = list_all is_py_string xs"
| "is_list_of_strings _ = False"

text \<open>
  The three effects are the outcome of the rsync transfer (an exception or none), of
  \<open>load_pickle_file\<close> (an exception or the object) and of \<open>remove_path\<close> on the
  local copy.
\<close>

definition retrieve_remote_pickle_file_content ::
    "bur_exception option \<Rightarrow> bur_exception + py_object \<Rightarrow> bool \<Rightarrow> bur_exception + py_object" where
  "retrieve_remote_pickle_file_content transfer_file load_pickle_file remove_path_ok =
     (case transfer_file of
        Some e \<Rightarrow> Inl e
      | None \<Rightarrow>
          (case load_pickle_file of
             Inl e \<Rightarrow> Inl e
           | Inr list_content \<Rightarrow>
               if \<not> isinstance_list list_content
               then Inl (Raise DownloadBackupException WrongTypeError
                          [PStr ''Pickle file content was supposed to be a list.''])
               else if \<not> remove_path_ok
               then Inl (Raise DownloadBackupException CannotRemoveFile [])
               else Inr list_content))"

section \<open>The local file system\<close>

text \<open>
  utils/fsys.py works on the local disk through \<open>os\<close> and \<open>shutil\<close>. A path is the
  list of its components. The disk is the list of its entries, in the order a traversal
  visits them (the content of a directory before the directory), and the list of paths
  on which the operating system refuses a removal or a creation: these make the
  \<open>OSError\<close> of the source. \<open>shutil.rmtree\<close> stops at the first entry it cannot remove
  and leaves what it has removed so far removed; \<open>os.makedirs\<close> creates the missing
  directories from the top and stops at the first it cannot create.
\<close>

datatype node_kind = RegularFile | Directory

type_synonym path = "string list"

record filesystem =
  nodes :: "(path \<times> node_kind) list"
  refused :: "path list"

definition os_path_exists :: "filesystem \<Rightarrow> path \<Rightarrow> bool" where
  "os_path_exists fs p = (map_of (nodes fs) p \<noteq> None)"

definition os_path_isdir :: "filesystem \<Rightarrow> path \<Rightarrow> bool" where
  "os_path_isdir fs p = (map_of (nodes fs) p = Some Directory)"

definition os_path_isfile :: "filesystem \<Rightarrow> path \<Rightarrow> bool" where
  "os_path_isfile fs p = (map_of (nodes fs) p = Some RegularFile)"

definition delete_entries :: "path list \<Rightarrow> filesystem \<Rightarrow> filesystem" where
  "delete_entries ps fs = fs\<lparr>nodes := filter (\<lambda>n. fst n \<notin> set ps) (nodes fs)\<rparr>"

definition add_entry :: "path \<Rightarrow> node_kind \<Rightarrow> filesystem \<Rightarrow> filesystem" where
  "add_entry p k fs = fs\<lparr>nodes := nodes fs @ [(p, k)]\<rparr>"

text \<open>\<open>os.remove\<close>: \<open>False\<close> stands for the \<open>OSError\<close>.\<close>

definition os_remove :: "path \<Rightarrow> filesystem \<Rightarrow> bool \<times> filesystem" where
  "os_remove p fs =
     (if p \<in> set (refused fs) then (False, fs) else (True, delete_entries [p] fs))"

text \<open>
  \<open>shutil.rmtree\<close>: the entries below \<open>p\<close> are removed in traversal order up to the
  first refused one; \<open>p\<close> itself goes last, when nothing is left below it.
\<close>

definition shutil_rmtree :: "path \<Rightarrow> filesystem \<Rightarrow> bool \<times> filesystem" where
  "shutil_rmtree p fs =
     (let below = filter (\<lambda>q. strict_prefix p q) (map fst (nodes fs));
          removable = takeWhile (\<lambda>q. q \<notin> set (refused fs)) below in
      if length removable < length below \<or> p \<in> set (refused fs)
      then (False, delete_entries removable fs)
      else (True, delete_entries (p # below) fs))"

text \<open>
  \<open>os.makedirs\<close>: \<open>made\<close> is the part of the path already walked. An existing
  directory on the way is entered, an existing leaf or a file on the way is an error.
\<close>

fun makedirs_walk :: "path \<Rightarrow> string list \<Rightarrow> filesystem \<Rightarrow> bool \<times> filesystem" where
  "makedirs_walk made [] fs = (True, fs)"
| "makedirs_walk made (c # cs) fs =
     (case map_of (nodes fs) (made @ [c]) of
        Some Directory \<Rightarrow> if cs = [] then (False, fs) else makedirs_walk (made @ [c]) cs fs
      | Some RegularFile \<Rightarrow> (False, fs)
      | None \<Rightarrow>
          if made @ [c] \<in> set (refused fs) then (False, fs)
          else makedirs_walk (made @ [c]) cs (add_entry (made @ [c]) Directory fs))"

definition os_makedirs :: "path \<Rightarrow> filesystem \<Rightarrow> bool \<times> filesystem" where
  "os_makedirs p fs = makedirs_walk [] p fs"

definition remove_path :: "path \<Rightarrow> filesystem \<Rightarrow> bool \<times> filesystem" where
  "remove_path p fs =
     (if \<not> os_path_exists fs p then (True, fs)
      else if os_path_isdir fs p then shutil_rmtree p fs
      else os_remove p fs)"

definition create_path :: "path \<Rightarrow> filesystem \<Rightarrow> bool \<times> filesystem" where
  "create_path p fs =
     (if os_path_exists fs p then (True, fs) else os_makedirs p fs)"

section \<open>Transfers with rsync\<close>

text \<open>
  rsync_manager.py. \<open>RsyncOutput\<close> keeps the values parsed from the \<open>--stats\<close> block,
  as strings. One run of rsync followed by \<open>parse_output\<close> either raises (a
  \<open>CalledProcessError\<close> becomes a \<open>RsyncException\<close>) or gives a \<open>RsyncOutput\<close>;
  \<open>rsync_run k\<close> is the outcome of the k-th run. The local file counts are those of
  \<open>get_number_of_content_from_path\<close>.
\<close>

record rsync_output =
  n_files :: string
  n_created_files :: string
  n_deleted_files :: string
  n_transferred_files :: string
  speedup :: string
  rate :: string

record rsync_env =
  rsync_run :: "nat \<Rightarrow> bur_exception + rsync_output"
  local_number_files :: "string \<Rightarrow> bur_exception + int"

record rsync_manager =
  source_path :: string
  destination_path :: string
  retry :: nat
  rsync_ssh :: bool

definition NUMBER_TRIES :: nat where
  "NUMBER_TRIES = 3"

definition rsync_output_str :: "rsync_output \<Rightarrow> string" where
  "rsync_output_str r =
     ''RsyncOutput:'' @ [CHR 0x0A]
     @ ''Number of files: '' @ n_files r @ [CHR 0x0A]
     @ ''Number of created files: '' @ n_created_files r @ [CHR 0x0A]
     @ ''Number of deleted files: '' @ n_deleted_files r @ [CHR 0x0A]
     @ ''Number of transferred files: '' @ n_transferred_files r @ [CHR 0x0A]
     @ ''Speedup: '' @ speedup r @ [CHR 0x0A]
     @ ''Transfer rate: '' @ rate r @ [CHR 0x0A]"

definition path_join :: "string \<Rightarrow> string \<Rightarrow> string" where
  "path_join a b =
     (if b \<noteq> [] \<and> hd b = CHR ''/'' then b
      else if a = [] \<or> last a = CHR ''/'' then a @ b
      else a @ ''/'' @ b)"

text \<open>
  The loop of \<open>send\<close> over \<open>range(1, self.retry + 1)\<close>. The result \<open>Inr None\<close> is the
  \<open>return False\<close> after a loop that never ran.
\<close>

fun send_tries ::
    "rsync_env \<Rightarrow> rsync_manager \<Rightarrow> int \<Rightarrow> nat list \<Rightarrow> bur_exception + rsync_output option" where
  "send_tries env self nf [] = Inr None"
| "send_tries env self nf (current_try # rest) =
     (case rsync_run env current_try of
        Inl e \<Rightarrow> Inl e
      | Inr rsync_output \<Rightarrow>
          (case py_int (n_transferred_files rsync_output) of
             None \<Rightarrow> Inl (Raise RsyncException DefaultExceptionCode [])
           | Some transferred \<Rightarrow>
               if transferred = nf then Inr (Some rsync_output)
               else if current_try = retry self
               then Inl (Raise RsyncException ExceedTryOuts
                          [PInt (int (retry self)), PStr (rsync_output_str rsync_output)])
               else send_tries env self nf rest))"

definition send :: "rsync_env \<Rightarrow> rsync_manager \<Rightarrow> bur_exception + rsync_output option" where
  "send env self =
     (case local_number_files env (source_path self) of
        Inl e \<Rightarrow> Inl e
      | Inr nf \<Rightarrow>
          if nf = 0 then Inl (Raise RsyncException NoFilesToSend [PStr (source_path self)])
          else send_tries env self nf [1 ..< retry self + 1])"

definition RSYNC_MODULE :: string where
  "RSYNC_MODULE = ''rsync://''"

definition RSYNC_DAEMON_DESTINATION :: string where
  "RSYNC_DAEMON_DESTINATION = ''/rsyncd''"

text \<open>
  \<open>receive\<close> runs rsync once; \<open>self.retry\<close> is not read. With the rsync daemon
  (\<open>rsync_ssh\<close> false) the source handed to rsync, and named by the invalid-path error, is
  the \<open>rsync://\<close> form of the source path; the host and the remote path are always cut
  from the source path as it was given.
\<close>

definition receive ::
    "rsync_env \<Rightarrow> remote_host \<Rightarrow> rsync_manager \<Rightarrow> bur_exception + rsync_output" where
  "receive env w self =
     (let source_path' =
            (if rsync_ssh self then source_path self
             else RSYNC_MODULE
                  @ py_replace '':'' RSYNC_DAEMON_DESTINATION (source_path self));
          source_path_split = py_split_sep '':'' (source_path self) in
      if length source_path_split \<noteq> 2
      then Inl (Raise RsyncException InvalidPath [PStrs source_path_split])
      else
        (let host = source_path_split ! 0; remote_path = source_path_split ! 1 in
         if \<not> fst (check_remote_path_exists host remote_path w)
         then Inl (Raise RsyncException InvalidPath [PStr source_path'])
         else
           (case rsync_run env 1 of
              Inl e \<Rightarrow> Inl e
            | Inr rsync_output \<Rightarrow>
                (case get_number_of_content_from_remote_path host remote_path w of
                   Inl e \<Rightarrow> Inl e
                 | Inr (origin_number_files, _) \<Rightarrow>
                     (case local_number_files env
                             (path_join (destination_path self) (basename remote_path)) of
                        Inl e \<Rightarrow> Inl e
                      | Inr destination_number_files \<Rightarrow>
                          (case py_int (n_transferred_files rsync_output) of
                             None \<Rightarrow> Inl (Raise RsyncException DefaultExceptionCode [])
                           | Some transferred \<Rightarrow>
                               if transferred \<noteq> origin_number_files
                                  \<or> transferred \<noteq> destination_number_files
                               then Inl (Raise RsyncException RsyncTransferNumberFilesDiffer
                                          [PStr (n_transferred_files rsync_output),
                                           PInt destination_number_files,
                                           PInt origin_number_files])
                               else Inr rsync_output))))))"

text \<open>
  \<open>RsyncManager.transfer_file\<close>: a source with an \<open>@\<close> is remote and is received,
  any other one is sent; both managers are built with \<open>NUMBER_TRIES\<close>.
\<close>

definition transfer_file ::
    "rsync_env \<Rightarrow> remote_host \<Rightarrow> string \<Rightarrow> string \<Rightarrow> bool
       \<Rightarrow> bur_exception + rsync_output option" where
  "transfer_file env w src target ssh =
     (case check_not_empty src of Inl e \<Rightarrow> Inl e | Inr _ \<Rightarrow>
      case check_not_empty target of Inl e \<Rightarrow> Inl e | Inr _ \<Rightarrow>
      let self = \<lparr>source_path = src, destination_path = target, retry = NUMBER_TRIES,
                  rsync_ssh = ssh\<rparr> in
      if CHR ''@'' \<in> set src
      then (case receive env w self of Inl e \<Rightarrow> Inl e | Inr r \<Rightarrow> Inr (Some r))
      else send env self)"

section \<open>Uploading a backup\<close>

text \<open>
  local_backup_handler.py. The remote backup directory is the list of the names it holds,
  in the order they arrived; \<open>check_remote_path_exists\<close> on a file of that directory is
  membership. The local temporary directory is part of the disk. The transfer pool is the
  list of its submitted tasks, the output dictionary an association list. The external
  tools (gpg, tar, rsync, the remote listing) either raise or succeed; what they do is
  given by \<open>upload_env\<close>, by volume or file name. The elapsed times kept in a volume
  output are left out; its \<open>output\<close> entry is \<open>output_message\<close>.

  The process pool and the transfer pool run in parallel. A transfer reads and removes
  only the archive of its own volume and an encoding works only below the temporary
  directory of its own volume, so the tasks are run one after the other: the encodings
  in the order they were submitted, then the transfers in the order they were submitted.
  Both pools are joined before the outputs are checked.
\<close>

definition PROCESSED_VOLUME_ENDS_WITH :: string where
  "PROCESSED_VOLUME_ENDS_WITH = ''.tar''"

definition SUCCESS_FLAG_FILE :: string where
  "SUCCESS_FLAG_FILE = ''BACKUP_OK''"

definition BACKUP_META_FILE :: string where
  "BACKUP_META_FILE = ''backup.metadata''"

definition BUR_FILE_LIST_DESCRIPTOR_FILE_NAME :: string where
  "BUR_FILE_LIST_DESCRIPTOR_FILE_NAME = ''bur_file_list_descriptor.dat''"

definition BUR_VOLUME_LIST_DESCRIPTOR_FILE_NAME :: string where
  "BUR_VOLUME_LIST_DESCRIPTOR_FILE_NAME = ''bur_volume_list_descriptor.dat''"

text \<open>
  \<open>os.path.splitext(p)[0]\<close>: the name is cut at its last dot, unless only dots come
  before it (or there is no dot).
\<close>

definition splitext_root :: "string \<Rightarrow> string" where
  "splitext_root p =
     (let name = basename p;
          ext = takeWhile (\<lambda>c. c \<noteq> CHR ''.'') (rev name) in
      if length ext = length name then p
      else
        (let stem = take (length name - length ext - 1) name in
         if \<exists>c \<in> set stem. c \<noteq> CHR ''.''
         then take (length p - length ext - 1) p
         else p))"

record volume_output =
  volume_path :: path
  status :: bool
  output_message :: string

record upload_env =
  free_disk_space :: "bur_exception + int"
  size_on_disk :: "bur_exception + int"
  remote_listing_error :: "string option"
  encrypt_volume :: "string \<Rightarrow> bur_exception option"
  archive_volume :: "string \<Rightarrow> bur_exception option"
  rsync_transfer :: "string \<Rightarrow> bur_exception option"
  encrypt_metadata :: "bur_exception option"
  archive_metadata :: "bur_exception option"
  exception_str :: "bur_exception \<Rightarrow> string"

record upload_state =
  remote_backup_dir :: "string list"
  onsite :: filesystem
  transfer_pool :: "(string \<times> volume_output) list"
  backup_output_dict :: "(string \<times> volume_output) list"

definition path_basename :: "path \<Rightarrow> string" where
  "path_basename p = (if p = [] then [] else last p)"

text \<open>The archive \<open>tar_file\<close> writes for a path: beside it, with \<open>.tar\<close> appended.\<close>

definition tar_path_of :: "path \<Rightarrow> path" where
  "tar_path_of p = butlast p @ [path_basename p @ ''.tar'']"

definition get_empty_volume_output :: "path \<Rightarrow> bool \<Rightarrow> volume_output" where
  "get_empty_volume_output vp st = \<lparr>volume_path = vp, status = st, output_message = []\<rparr>"

definition get_list_processed_vols_names_offsite ::
    "upload_env \<Rightarrow> upload_state \<Rightarrow> bur_exception + string list" where
  "get_list_processed_vols_names_offsite env s =
     (case remote_listing_error env of
        Some error \<Rightarrow>
          Inl (Raise UploadBackupException FailedToGetProcessedVolsNamesOffsite [PStr error])
      | None \<Rightarrow>
          (let offsite_volume_list =
                 filter (\<lambda>n. suffix PROCESSED_VOLUME_ENDS_WITH n) (remote_backup_dir s) in
           Inr (map splitext_root offsite_volume_list)))"

definition on_volume_ready :: "string \<times> volume_output \<Rightarrow> upload_state \<Rightarrow> upload_state" where
  "on_volume_ready t s =
     (case t of (volume_name, volume_output) \<Rightarrow>
        if status volume_output
        then s\<lparr>transfer_pool := transfer_pool s @ [(volume_name, volume_output)]\<rparr>
        else s\<lparr>backup_output_dict :=
                 AList.update volume_name volume_output (backup_output_dict s)\<rparr>)"

definition on_volume_transferred :: "string \<times> volume_output \<Rightarrow> upload_state \<Rightarrow> upload_state" where
  "on_volume_transferred t s =
     (case t of (volume_name, volume_output) \<Rightarrow>
        s\<lparr>backup_output_dict := AList.update volume_name volume_output (backup_output_dict s)\<rparr>)"

text \<open>
  The loop of \<open>validate_already_processed_volumes\<close> over the local volumes;
  \<open>to_process\<close> is \<open>volume_path_list_to_process\<close>.
\<close>

fun partition_volumes ::
    "string list \<Rightarrow> path \<Rightarrow> string list \<Rightarrow> string list \<Rightarrow> upload_state
       \<Rightarrow> string list \<times> upload_state" where
  "partition_volumes uploaded temp_backup_path [] to_process s = (to_process, s)"
| "partition_volumes uploaded temp_backup_path (volume_name # rest) to_process s =
     (if volume_name \<in> set uploaded
      then partition_volumes uploaded temp_backup_path rest to_process s
      else
        (let proc_tar_volume_path =
               temp_backup_path @ [volume_name @ PROCESSED_VOLUME_ENDS_WITH] in
         if os_path_exists (onsite s) proc_tar_volume_path
         then partition_volumes uploaded temp_backup_path rest to_process
                (on_volume_ready
                   (volume_name, get_empty_volume_output proc_tar_volume_path True) s)
         else
           (let temp_unfinished_volume_path = temp_backup_path @ [volume_name] in
            partition_volumes uploaded temp_backup_path rest (to_process @ [volume_name])
              (if os_path_exists (onsite s) temp_unfinished_volume_path
               then s\<lparr>onsite := snd (remove_path temp_unfinished_volume_path (onsite s))\<rparr>
               else s))))"

definition validate_already_processed_volumes ::
    "upload_env \<Rightarrow> path \<Rightarrow> string list \<Rightarrow> string list \<Rightarrow> upload_state
       \<Rightarrow> (bur_exception + string list \<times> string list \<times> string list) \<times> upload_state" where
  "validate_already_processed_volumes env temp_backup_path volume_list file_list s =
     (if volume_list = []
      then (Inl (Raise UploadBackupException NoVolumeListForBackup []), s)
      else if file_list = []
      then (Inl (Raise UploadBackupException NoMetadataForBackup []), s)
      else
        (case get_list_processed_vols_names_offsite env s of
           Inl e \<Rightarrow> (Inl e, s)
         | Inr uploaded_volume_name_list \<Rightarrow>
             (case partition_volumes uploaded_volume_name_list temp_backup_path
                     volume_list [] s of
                (to_process, s') \<Rightarrow> (Inr (file_list, volume_list, to_process), s'))))"

definition processing_error :: "upload_env \<Rightarrow> bur_exception \<Rightarrow> volume_output" where
  "processing_error env e =
     (get_empty_volume_output [] False)
       \<lparr>output_message := ''Error while processing volume. '' @ exception_str env e\<rparr>"

definition process_volume ::
    "upload_env \<Rightarrow> string \<Rightarrow> path \<Rightarrow> filesystem \<Rightarrow> volume_output \<times> filesystem" where
  "process_volume env volume_name tmp_volume_path fs =
     (case create_path tmp_volume_path fs of
        (False, fs1) \<Rightarrow>
          (processing_error env (Raise UploadBackupException CannotCreatePath []), fs1)
      | (True, fs1) \<Rightarrow>
          (case encrypt_volume env volume_name of
             Some e \<Rightarrow> (processing_error env e, fs1)
           | None \<Rightarrow>
               (case archive_volume env volume_name of
                  Some e \<Rightarrow> (processing_error env e, fs1)
                | None \<Rightarrow>
                    (let compressed_volume_path = tar_path_of tmp_volume_path;
                         fs2 = add_entry compressed_volume_path RegularFile fs1 in
                     case remove_path tmp_volume_path fs2 of
                       (False, fs3) \<Rightarrow>
                         (processing_error env
                            (Raise UploadBackupException CannotRemovePath []), fs3)
                     | (True, fs3) \<Rightarrow>
                         ((get_empty_volume_output [] False)
                            \<lparr>volume_path := compressed_volume_path, status := True\<rparr>,
                          fs3)))))"

definition transfer_backup_volume_to_offsite ::
    "upload_env \<Rightarrow> string \<Rightarrow> volume_output \<Rightarrow> path \<Rightarrow> upload_state
       \<Rightarrow> (string \<times> volume_output) \<times> upload_state" where
  "transfer_backup_volume_to_offsite env volume_name volume_output tmp_customer_volume_path s =
     (case rsync_transfer env (path_basename tmp_customer_volume_path) of
        Some e \<Rightarrow>
          ((volume_name,
            volume_output\<lparr>status := False,
                           output_message := ''Error while transferring volume. ''
                                     @ exception_str env e\<rparr>), s)
      | None \<Rightarrow>
          (let s1 = s\<lparr>remote_backup_dir :=
                         remote_backup_dir s @ [path_basename tmp_customer_volume_path]\<rparr> in
           case remove_path tmp_customer_volume_path (onsite s1) of
             (False, fs) \<Rightarrow>
               ((volume_name,
                 volume_output\<lparr>status := False,
                                output_message := ''Error while transferring volume. ''
                                  @ exception_str env
                                      (Raise UploadBackupException CannotRemovePath [])\<rparr>),
                s1\<lparr>onsite := fs\<rparr>)
           | (True, fs) \<Rightarrow>
               ((volume_name, volume_output\<lparr>status := True, output_message := []\<rparr>),
                s1\<lparr>onsite := fs\<rparr>)))"

text \<open>The tasks of the process pool, each followed by its callback.\<close>

fun run_process_pool ::
    "upload_env \<Rightarrow> path \<Rightarrow> string list \<Rightarrow> upload_state \<Rightarrow> upload_state" where
  "run_process_pool env temp_backup_path [] s = s"
| "run_process_pool env temp_backup_path (volume_name # rest) s =
     (case process_volume env volume_name (temp_backup_path @ [volume_name]) (onsite s) of
        (volume_output, fs) \<Rightarrow>
          run_process_pool env temp_backup_path rest
            (on_volume_ready (volume_name, volume_output) (s\<lparr>onsite := fs\<rparr>)))"

text \<open>The tasks of the transfer pool, each followed by its callback.\<close>

fun run_transfer_tasks ::
    "upload_env \<Rightarrow> (string \<times> volume_output) list \<Rightarrow> upload_state \<Rightarrow> upload_state" where
  "run_transfer_tasks env [] s = s"
| "run_transfer_tasks env ((volume_name, volume_output) # rest) s =
     (case transfer_backup_volume_to_offsite env volume_name volume_output
             (volume_path volume_output) s of
        (t, s') \<Rightarrow> run_transfer_tasks env rest (on_volume_transferred t s'))"

definition run_transfer_pool :: "upload_env \<Rightarrow> upload_state \<Rightarrow> upload_state" where
  "run_transfer_pool env s = run_transfer_tasks env (transfer_pool s) (s\<lparr>transfer_pool := []\<rparr>)"

definition check_backup_output_errors :: "upload_state \<Rightarrow> bur_exception + bool" where
  "check_backup_output_errors s =
     (let failed_volume_error_message_list =
            map (\<lambda>kv. output_message (snd kv))
              (filter (\<lambda>kv. \<not> status (snd kv)) (backup_output_dict s)) in
      if failed_volume_error_message_list \<noteq> []
      then Inl (Raise UploadBackupException DefaultExceptionCode
                 [PStrs failed_volume_error_message_list])
      else Inr True)"

fun process_backup_metadata_files ::
    "upload_env \<Rightarrow> path \<Rightarrow> string list \<Rightarrow> string list \<Rightarrow> upload_state
       \<Rightarrow> (bur_exception + string list) \<times> upload_state" where
  "process_backup_metadata_files env temp_backup_path [] processed_file_name_list s =
     (Inr processed_file_name_list, s)"
| "process_backup_metadata_files env temp_backup_path (file_name # rest)
       processed_file_name_list s =
     (if file_name \<in> set (remote_backup_dir s)
      then process_backup_metadata_files env temp_backup_path rest processed_file_name_list s
      else if SUCCESS_FLAG_FILE = file_name
      then
        (case rsync_transfer env file_name of
           Some e \<Rightarrow> (Inl e, s)
         | None \<Rightarrow>
             process_backup_metadata_files env temp_backup_path rest
               (processed_file_name_list @ [file_name])
               (s\<lparr>remote_backup_dir := remote_backup_dir s @ [file_name]\<rparr>))
      else if BACKUP_META_FILE = file_name
      then
        (case encrypt_metadata env of
           Some e \<Rightarrow> (Inl e, s)
         | None \<Rightarrow>
             (let processed_file_path = temp_backup_path @ [file_name @ ''.gz.gpg''];
                  s1 = s\<lparr>onsite := add_entry processed_file_path RegularFile (onsite s)\<rparr> in
              case archive_metadata env of
                Some e \<Rightarrow> (Inl e, s1)
              | None \<Rightarrow>
                  (let archived_file_path = tar_path_of processed_file_path;
                       s2 = s1\<lparr>onsite := add_entry archived_file_path RegularFile (onsite s1)\<rparr> in
                   case remove_path processed_file_path (onsite s2) of
                     (False, fs) \<Rightarrow>
                       (Inl (Raise UploadBackupException CannotRemoveFile []),
                        s2\<lparr>onsite := fs\<rparr>)
                   | (True, fs) \<Rightarrow>
                       (case rsync_transfer env (path_basename archived_file_path) of
                          Some e \<Rightarrow> (Inl e, s2\<lparr>onsite := fs\<rparr>)
                        | None \<Rightarrow>
                            process_backup_metadata_files env temp_backup_path rest
                              (processed_file_name_list @ [path_basename archived_file_path])
                              (s2\<lparr>onsite := fs,
                                  remote_backup_dir :=
                                    remote_backup_dir s2
                                    @ [path_basename archived_file_path]\<rparr>)))))
      else process_backup_metadata_files env temp_backup_path rest processed_file_name_list s)"

text \<open>
  \<open>process_bur_descriptors\<close> with \<open>create_transfer_pickle_file\<close>: the pickle file is
  written, sent and removed. The content of the descriptor is not kept.
\<close>

definition process_bur_descriptors ::
    "upload_env \<Rightarrow> string \<Rightarrow> path \<Rightarrow> upload_state \<Rightarrow> (bur_exception + bool) \<times> upload_state" where
  "process_bur_descriptors env descriptor_name temp_backup_path s =
     (if descriptor_name \<notin> set (remote_backup_dir s)
      then
        (let file_path = temp_backup_path @ [descriptor_name];
             s1 = s\<lparr>onsite := add_entry file_path RegularFile (onsite s)\<rparr> in
         case rsync_transfer env descriptor_name of
           Some e \<Rightarrow> (Inl e, s1)
         | None \<Rightarrow>
             (let s2 = s1\<lparr>remote_backup_dir := remote_backup_dir s1 @ [descriptor_name]\<rparr> in
              case remove_path file_path (onsite s2) of
                (False, fs) \<Rightarrow>
                  (Inl (Raise UploadBackupException CannotRemoveFile []), s2\<lparr>onsite := fs\<rparr>)
              | (True, fs) \<Rightarrow> (Inr True, s2\<lparr>onsite := fs\<rparr>)))
      else (Inr True, s))"

text \<open>
  The part of \<open>process_backup\<close> before the metadata files: the disk-space check, the
  partition, both pools and the check of the outputs.
\<close>

definition process_backup_volumes ::
    "upload_env \<Rightarrow> path \<Rightarrow> string list \<Rightarrow> string list \<Rightarrow> upload_state
       \<Rightarrow> (bur_exception + string list \<times> string list) \<times> upload_state" where
  "process_backup_volumes env temp_backup_path volume_names file_names s =
     (case check_local_disk_space_for_upload (free_disk_space env) (size_on_disk env) of
        Inl e \<Rightarrow> (Inl e, s)
      | Inr _ \<Rightarrow>
          (case validate_already_processed_volumes env temp_backup_path volume_names
                  file_names (s\<lparr>backup_output_dict := [], transfer_pool := []\<rparr>) of
             (Inl e, s1) \<Rightarrow> (Inl e, s1)
           | (Inr (file_path_list, volume_path_list, volume_path_to_process_list), s1) \<Rightarrow>
               (let s2 = run_process_pool env temp_backup_path volume_path_to_process_list s1;
                    s3 = run_transfer_pool env s2 in
                case check_backup_output_errors s3 of
                  Inl e \<Rightarrow> (Inl e, s3)
                | Inr _ \<Rightarrow> (Inr (file_path_list, volume_path_list), s3))))"

definition process_backup ::
    "upload_env \<Rightarrow> path \<Rightarrow> string list \<Rightarrow> string list \<Rightarrow> upload_state
       \<Rightarrow> (bur_exception + (string \<times> volume_output) list) \<times> upload_state" where
  "process_backup env temp_backup_path volume_names file_names s =
     (case process_backup_volumes env temp_backup_path volume_names file_names s of
        (Inl e, s3) \<Rightarrow> (Inl e, s3)
      | (Inr (file_path_list, volume_path_list), s3) \<Rightarrow>
          (case process_backup_metadata_files env temp_backup_path file_path_list [] s3 of
             (Inl e, s4) \<Rightarrow> (Inl e, s4)
           | (Inr file_name_list, s4) \<Rightarrow>
               (case process_bur_descriptors env BUR_FILE_LIST_DESCRIPTOR_FILE_NAME
                       temp_backup_path s4 of
                  (Inl e, s5) \<Rightarrow> (Inl e, s5)
                | (Inr _, s5) \<Rightarrow>
                    (case process_bur_descriptors env BUR_VOLUME_LIST_DESCRIPTOR_FILE_NAME
                            temp_backup_path s5 of
                       (Inl e, s6) \<Rightarrow> (Inl e, s6)
                     | (Inr _, s6) \<Rightarrow> (Inr (backup_output_dict s6), s6)))))"

text \<open>
  The name under which \<open>backup.metadata\<close> reaches the remote directory: gzip, gpg and
  tar each append their suffix.
\<close>

definition archived_metadata_name :: string where
  "archived_metadata_name = BACKUP_META_FILE @ ''.gz.gpg.tar''"

text \<open>
  Two readings of the state used to state what the pools achieve: the output dictionary
  holds a failed output for a volume; the archive of a volume is in the remote directory
  or its output is a failed one.
\<close>

definition dict_failed :: "upload_state \<Rightarrow> string \<Rightarrow> bool" where
  "dict_failed s V = (\<exists>vo. map_of (backup_output_dict s) V = Some vo \<and> \<not> status vo)"

definition on_remote_or_failed :: "upload_state \<Rightarrow> string \<Rightarrow> bool" where
  "on_remote_or_failed s V =
     (V @ ''.tar'' \<in> set (remote_backup_dir s) \<or> dict_failed s V)"

section \<open>Concrete inputs\<close>

text \<open>A remote host that answers every command with \<open>DIR_IS_AVAILABLE\<close>.\<close>

definition host_always_available :: remote_host where
  "host_always_available =
     \<lparr>ssh_exec = (\<lambda>h c. (''DIR_IS_AVAILABLE'', [], False)), ssh_log = []\<rparr>"

text \<open>
  Two hosts whose \<open>find\<close> pipeline prints one line: the oldest file of \<open>/r/b\<close> is
  \<open>my file\<close> on the first, and a file whose name ends in a space on the second.
\<close>

definition host_inner_space :: remote_host where
  "host_inner_space =
     \<lparr>ssh_exec = (\<lambda>h c. (''2018-12-04+10:30:00.0000000000'' @ [CHR 0x09] @ ''/r/b/my file''
                            @ [CHR 0x0A] @ ''END_OF_COMMAND'' @ [CHR 0x0A], [], False)),
      ssh_log = []\<rparr>"

definition host_trailing_space :: remote_host where
  "host_trailing_space =
     \<lparr>ssh_exec = (\<lambda>h c. (''2018-12-04+10:30:00.0000000000'' @ [CHR 0x09] @ ''/r/b/file ''
                            @ [CHR 0x0A] @ ''END_OF_COMMAND'' @ [CHR 0x0A], [], False)),
      ssh_log = []\<rparr>"

text \<open>
  A host with three backups of one customer: \<open>b1\<close> and \<open>b2\<close> hold four files each,
  \<open>b3\<close> is empty, and the oldest entry of \<open>b2\<close> is one day younger than that of
  \<open>b1\<close>.
\<close>

definition host_three_backups :: remote_host where
  "host_three_backups =
     \<lparr>ssh_exec = (\<lambda>h c.
          if c = ''find /r/c/b1 -type f | wc -l'' \<or> c = ''find /r/c/b2 -type f | wc -l''
          then (''4'' @ [CHR 0x0A], [], False)
          else if take 7 (rev c) = ''l- cw |''
          then (''0'' @ [CHR 0x0A], [], False)
          else (''2018-12-04+10:30:00.0000000000'' @ [CHR 0x09] @ ''/r/c/b1/BACKUP_OK''
                 @ [CHR 0x0A] @ ''END_OF_COMMAND'' @ [CHR 0x0A]
                 @ ''2018-12-05+10:30:00.0000000000'' @ [CHR 0x09] @ ''/r/c/b2/BACKUP_OK''
                 @ [CHR 0x0A] @ ''END_OF_COMMAND'' @ [CHR 0x0A], [], False)),
      ssh_log = []\<rparr>"

text \<open>
  A host with two backups of one customer, neither empty; the oldest entry of \<open>b1\<close>
  is a file in its sub-directory \<open>volume0\<close>.
\<close>

definition host_nested_oldest :: remote_host where
  "host_nested_oldest =
     \<lparr>ssh_exec = (\<lambda>h c.
          if c = ''find /r/c/b1 -type f | wc -l'' \<or> c = ''find /r/c/b2 -type f | wc -l''
          then (''4'' @ [CHR 0x0A], [], False)
          else if c = ''find /r/c/b1 -mindepth 1 -type d | wc -l''
          then (''1'' @ [CHR 0x0A], [], False)
          else if take 7 (rev c) = ''l- cw |''
          then (''0'' @ [CHR 0x0A], [], False)
          else (''2018-12-04+10:30:00.0000000000'' @ [CHR 0x09] @ ''/r/c/b1/volume0/data''
                 @ [CHR 0x0A] @ ''END_OF_COMMAND'' @ [CHR 0x0A]
                 @ ''2018-12-05+10:30:00.0000000000'' @ [CHR 0x09] @ ''/r/c/b2/BACKUP_OK''
                 @ [CHR 0x0A] @ ''END_OF_COMMAND'' @ [CHR 0x0A], [], False)),
      ssh_log = []\<rparr>"

text \<open>
  An rsync whose first run transfers none of the single file and whose later runs
  transfer it; one file on either side.
\<close>

definition stats_of :: "string \<Rightarrow> rsync_output" where
  "stats_of transferred =
     \<lparr>n_files = ''1'', n_created_files = ''0'', n_deleted_files = ''0'',
      n_transferred_files = transferred, speedup = ''1.00'', rate = ''74.67''\<rparr>"

definition second_run_succeeds :: rsync_env where
  "second_run_succeeds =
     \<lparr>rsync_run = (\<lambda>k. if k = 1 then Inr (stats_of ''0'') else Inr (stats_of ''1'')),
      local_number_files = (\<lambda>p. Inr 1)\<rparr>"

definition host_one_file :: remote_host where
  "host_one_file =
     \<lparr>ssh_exec = (\<lambda>h c. if take 7 (rev c) = ''l- cw |''
                         then (if take 7 (rev (take (length c - 8) c)) = ''f epyt-''
                               then (''1'' @ [CHR 0x0A], [], False)
                               else (''0'' @ [CHR 0x0A], [], False))
                         else (''DIR_IS_AVAILABLE'' @ [CHR 0x0A], [], False)),
      ssh_log = []\<rparr>"

text \<open>
  A disk with a directory \<open>tmp/b\<close> of three files, the second of which cannot be
  removed.
\<close>

definition disk_with_refused_file :: filesystem where
  "disk_with_refused_file =
     \<lparr>nodes = [([''tmp''], Directory),
               ([''tmp'', ''b'', ''f1''], RegularFile),
               ([''tmp'', ''b'', ''f2''], RegularFile),
               ([''tmp'', ''b'', ''f3''], RegularFile),
               ([''tmp'', ''b''], Directory)],
      refused = [[''tmp'', ''b'', ''f2'']]\<rparr>"

text \<open>
  An upload that was interrupted: the archive of \<open>volume0\<close> is on the remote, the archive
  of \<open>volume1\<close> is in the temporary directory, \<open>volume2\<close> was left half encoded and
  \<open>volume3\<close> was not started. A first upload: nothing on the remote, an empty temporary
  directory. In both every tool succeeds.
\<close>

definition all_tools_succeed :: upload_env where
  "all_tools_succeed =
     \<lparr>free_disk_space = Inr 2000, size_on_disk = Inr 1000, remote_listing_error = None,
      encrypt_volume = (\<lambda>v. None), archive_volume = (\<lambda>v. None),
      rsync_transfer = (\<lambda>n. None), encrypt_metadata = None, archive_metadata = None,
      exception_str = (\<lambda>e. ''error'')\<rparr>"


definition first_upload :: upload_state where
  "first_upload =
     \<lparr>remote_backup_dir = [],
      onsite = \<lparr>nodes = [([''tmp''], Directory)], refused = []\<rparr>,
      transfer_pool = [],
      backup_output_dict = []\<rparr>"

section \<open>Verified properties\<close>

subsection \<open>Disk space\<close>

text \<open>
  C5 (as the code has it). The disk-space check of the upload raises the disk-space error
  exactly when the free space at the temporary path is less than or equal to the size of
  the source backup; it succeeds exactly when the free space is strictly larger. With
  equal values the check refuses.
\<close>

theorem check_local_disk_space_for_upload_iff:
  "(check_local_disk_space_for_upload (Inr free) (Inr bkp) =
      Inl (Raise UtilsException NotEnoughFreeDiskSpace [PInt bkp, PInt free]))
     = (free \<le> bkp)
   \<and> (check_local_disk_space_for_upload (Inr free) (Inr bkp) = Inr True) = (bkp < free)"
  by (auto simp: check_local_disk_space_for_upload_def)

theorem check_local_disk_space_for_upload_equal_refused:
  "check_local_disk_space_for_upload (Inr 5) (Inr 5) =
     Inl (Raise UtilsException NotEnoughFreeDiskSpace [PInt 5, PInt 5])
   \<and> \<not> ((5::int) < 5)"
  by (simp add: check_local_disk_space_for_upload_def)

subsection \<open>Blank strings\<close>

lemma dropWhile_all_self: "(\<forall>x \<in> set (dropWhile P s). P x) = (\<forall>x \<in> set s. P x)"
  by (induction s) auto

lemma py_strip_blank_iff: "(py_strip s = []) = list_all py_isspace s"
  by (simp add: py_strip_def dropWhile_all_self list_all_iff)

text \<open>
  C9. When the host or the command is empty or made of whitespace only,
  \<open>run_ssh_command\<close> returns the pair of empty strings and sends nothing (the log of
  executed commands is as before); \<open>check_remote_path_exists\<close> answers false for a
  blank host or a blank path, without raising and without a remote command.
\<close>

theorem blank_host_or_command:
  "(list_all py_isspace host \<or> list_all py_isspace command
      \<longrightarrow> run_ssh_command host command w = (([], []), w))
   \<and> (list_all py_isspace host \<or> list_all py_isspace path
      \<longrightarrow> check_remote_path_exists host path w = (False, w))"
  by (simp add: run_ssh_command_def check_remote_path_exists_def py_strip_blank_iff)

theorem blank_host_or_command_witness:
  "run_ssh_command ''  '' ''ls'' host_always_available = (([], []), host_always_available)
   \<and> check_remote_path_exists ''user@host'' [CHR 0x09] host_always_available
       = (False, host_always_available)
   \<and> fst (check_remote_path_exists ''user@host'' ''/data'' host_always_available) = True"
  using blank_host_or_command [of "''  ''" "''ls''" host_always_available]
        blank_host_or_command [of "''user@host''" "''ls''" host_always_available "[CHR 0x09]"]
  by (simp add: py_isspace_def check_remote_path_exists_def run_ssh_command_def
        host_always_available_def py_strip_def ssh_check_dir_command_def)

subsection \<open>Descriptor files\<close>

text \<open>
  C7 (as the code has it). Once the file is fetched and unpickled, reading a remote
  descriptor fails with the wrong-type error exactly when the object is not a list. The
  elements of a list are not inspected: a list is returned as it is, whatever it holds.
\<close>

theorem retrieve_wrong_type_iff:
  "(\<exists>ps. retrieve_remote_pickle_file_content None (Inr obj) removed
           = Inl (Raise DownloadBackupException WrongTypeError ps))
     = (\<not> isinstance_list obj)
   \<and> (isinstance_list obj \<longrightarrow>
        retrieve_remote_pickle_file_content None (Inr obj) True = Inr obj)"
  by (auto simp: retrieve_remote_pickle_file_content_def)

theorem retrieve_wrong_type_witness:
  "retrieve_remote_pickle_file_content None (Inr (PyList [PyString ''volume0''])) True
     = Inr (PyList [PyString ''volume0''])
   \<and> retrieve_remote_pickle_file_content None (Inr (PyDict [])) True
     = Inl (Raise DownloadBackupException WrongTypeError
             [PStr ''Pickle file content was supposed to be a list.''])"
  using retrieve_wrong_type_iff [of "PyList [PyString ''volume0'']" True]
        retrieve_wrong_type_iff [of "PyDict []" True]
  by (simp add: retrieve_remote_pickle_file_content_def)

text \<open>A list that holds an integer is not a list of strings, and is returned.\<close>

theorem retrieve_list_with_integer_accepted:
  "retrieve_remote_pickle_file_content None (Inr (PyList [PyInt 1, PyString ''volume0''])) True
     = Inr (PyList [PyInt 1, PyString ''volume0''])
   \<and> \<not> is_list_of_strings (PyList [PyInt 1, PyString ''volume0''])"
  by (simp add: retrieve_remote_pickle_file_content_def)

subsection \<open>Tokens of a result line\<close>


lemma split_ws_from_space:
  "py_isspace c \<Longrightarrow> split_ws_from cur (a @ c # b) = split_ws_from cur a @ split_ws_from [] b"
  by (induction a arbitrary: cur) auto

lemma split_ws_from_blank:
  "list_all py_isspace t \<Longrightarrow> split_ws_from cur t = split_ws_from cur []"
  by (induction t arbitrary: cur) auto

lemma split_ws_from_trailing:
  "list_all py_isspace t \<Longrightarrow> split_ws_from cur (s @ t) = split_ws_from cur s"
  by (induction s arbitrary: cur) (auto simp: split_ws_from_blank)

lemma split_ws_from_leading:
  "list_all py_isspace l \<Longrightarrow> split_ws_from [] (l @ s) = split_ws_from [] s"
  by (induction l) auto

lemma split_ws_from_token:
  "list_all (\<lambda>c. \<not> py_isspace c) ts \<Longrightarrow>
     split_ws_from cur ts = (if rev cur @ ts = [] then [] else [rev cur @ ts])"
  by (induction ts arbitrary: cur) auto

lemma split_ws_from_pending: "cur \<noteq> [] \<Longrightarrow> split_ws_from cur s \<noteq> []"
  by (induction s arbitrary: cur) auto

lemma split_ws_from_nonblank:
  "\<exists>x \<in> set s. \<not> py_isspace x \<Longrightarrow> split_ws_from cur s \<noteq> []"
  by (induction s arbitrary: cur) (auto simp: split_ws_from_pending)

lemma py_split_ws_line:
  assumes "list_all py_isspace lead" and "list_all py_isspace trail"
      and "ts \<noteq> []" and "list_all (\<lambda>c. \<not> py_isspace c) ts"
  shows "py_split_ws (lead @ ts @ [CHR 0x09] @ path @ trail) = ts # py_split_ws path"
proof -
  have tab: "py_isspace (CHR 0x09)" by (simp add: py_isspace_def)
  have "py_split_ws (lead @ ts @ [CHR 0x09] @ path @ trail)
          = split_ws_from [] ((lead @ ts) @ CHR 0x09 # (path @ trail))"
    by (simp add: py_split_ws_def)
  also have "\<dots> = split_ws_from [] (lead @ ts) @ split_ws_from [] (path @ trail)"
    using tab by (rule split_ws_from_space)
  also have "split_ws_from [] (lead @ ts) = [ts]"
    using assms by (simp add: split_ws_from_leading split_ws_from_token)
  also have "split_ws_from [] (path @ trail) = py_split_ws path"
    using assms by (simp add: split_ws_from_trailing py_split_ws_def)
  finally show ?thesis by simp
qed

lemma py_split_ws_inner:
  assumes "py_isspace c" and "\<exists>x \<in> set a. \<not> py_isspace x" and "\<exists>y \<in> set b. \<not> py_isspace y"
  shows "2 \<le> length (py_split_ws (a @ c # b))"
proof -
  have "py_split_ws (a @ c # b) = split_ws_from [] a @ split_ws_from [] b"
    using assms(1) by (simp add: py_split_ws_def split_ws_from_space)
  moreover have "split_ws_from [] a \<noteq> []" using assms(2) by (rule split_ws_from_nonblank)
  moreover have "split_ws_from [] b \<noteq> []" using assms(3) by (rule split_ws_from_nonblank)
  ultimately show ?thesis
    by (cases "split_ws_from [] a"; cases "split_ws_from [] b") auto
qed

lemma parse_find_results_error_form:
  "parse_find_results host fl chunks = Inl e \<Longrightarrow>
     \<exists>ps. e = Raise UtilsException ErrorSortingOffsiteBackupList ps"
  by (induction chunks arbitrary: e) (auto simp: Let_def split: if_splits sum.splits)

lemma parse_find_results_bad_chunk:
  "chunk \<in> set chunks \<Longrightarrow> py_strip chunk \<noteq> [] \<Longrightarrow> length (py_split_ws chunk) \<noteq> 2 \<Longrightarrow>
     \<exists>e. parse_find_results host fl chunks = Inl e"
  by (induction chunks) (auto simp: Let_def split: sum.splits)

lemma parse_find_results_Inl_iff:
  "(\<exists>e. parse_find_results host fl chunks = Inl e)
     = (\<exists>chunk \<in> set chunks. py_strip chunk \<noteq> [] \<and> length (py_split_ws chunk) \<noteq> 2)"
  by (induction chunks) (auto simp: Let_def split: sum.splits)

lemma rev_take_drop: "d = rev (dropWhile P (rev d)) @ rev (takeWhile P (rev d))"
  by (metis rev_append rev_rev_ident takeWhile_dropWhile_id)

lemma py_strip_decompose:
  "\<exists>lead trail. s = lead @ py_strip s @ trail
      \<and> list_all py_isspace lead \<and> list_all py_isspace trail"
proof -
  define d where "d = dropWhile py_isspace s"
  have a: "s = takeWhile py_isspace s @ d" by (simp add: d_def)
  have b: "d = py_strip s @ rev (takeWhile py_isspace (rev d))"
    using rev_take_drop [of d py_isspace] by (simp add: py_strip_def d_def)
  have c: "list_all py_isspace (takeWhile py_isspace s)"
    by (simp add: list_all_iff) (meson set_takeWhileD)
  have e: "list_all py_isspace (rev (takeWhile py_isspace (rev d)))"
    by (simp add: list_all_iff) (meson set_takeWhileD)
  from a b have "s = takeWhile py_isspace s @ py_strip s @ rev (takeWhile py_isspace (rev d))"
    by simp
  with c e show ?thesis by blast
qed

lemma py_strip_ends:
  assumes "py_strip s \<noteq> []"
  shows "\<not> py_isspace (hd (py_strip s))" and "\<not> py_isspace (last (py_strip s))"
proof -
  define d where "d = dropWhile py_isspace s"
  have st: "py_strip s = rev (dropWhile py_isspace (rev d))" by (simp add: py_strip_def d_def)
  with assms have ne: "dropWhile py_isspace (rev d) \<noteq> []" by simp
  then have "\<not> py_isspace (hd (dropWhile py_isspace (rev d)))" by (rule hd_dropWhile)
  then show "\<not> py_isspace (last (py_strip s))" using ne by (simp add: st last_rev)
  from ne have dne: "d \<noteq> []" by auto
  then have hd_d: "\<not> py_isspace (hd d)" unfolding d_def by (rule hd_dropWhile)
  have "d = py_strip s @ rev (takeWhile py_isspace (rev d))"
    using rev_take_drop [of d py_isspace] by (simp add: st)
  then have "hd d = hd (py_strip s)" using assms by (metis hd_append2)
  with hd_d show "\<not> py_isspace (hd (py_strip s))" by simp
qed

lemma py_split_ws_strip: "py_split_ws s = py_split_ws (py_strip s)"
proof -
  from py_strip_decompose [of s] obtain lead trail where
    s: "s = lead @ py_strip s @ trail" and l: "list_all py_isspace lead"
    and t: "list_all py_isspace trail" by blast
  have "py_split_ws (lead @ py_strip s @ trail) = py_split_ws (py_strip s)"
    using l t split_ws_from_trailing [of trail "[]" "py_strip s"]
    by (simp add: py_split_ws_def split_ws_from_leading)
  with s show ?thesis by simp
qed

lemma py_split_ws_single_token:
  "(length (py_split_ws field) = 1)
     = (py_strip field \<noteq> [] \<and> list_all (\<lambda>x. \<not> py_isspace x) (py_strip field))"
proof (cases "py_strip field = []")
  case True
  then show ?thesis using py_split_ws_strip [of field] by (simp add: py_split_ws_def)
next
  case ne: False
  show ?thesis
  proof (cases "list_all (\<lambda>x. \<not> py_isspace x) (py_strip field)")
    case True
    then have "py_split_ws (py_strip field) = [py_strip field]"
      using ne by (simp add: py_split_ws_def split_ws_from_token)
    then show ?thesis using ne True py_split_ws_strip [of field] by simp
  next
    case False
    then obtain c where c: "c \<in> set (py_strip field)" "py_isspace c"
      by (auto simp: list_all_iff)
    then obtain a b where ab: "py_strip field = a @ c # b" by (meson split_list)
    have "a \<noteq> []"
      using py_strip_ends(1) [OF ne] ab c(2) by (cases a) auto
    then have "hd (py_strip field) \<in> set a" using ab by (cases a) auto
    then have A: "\<exists>x \<in> set a. \<not> py_isspace x" using py_strip_ends(1) [OF ne] by blast
    have "b \<noteq> []"
      using py_strip_ends(2) [OF ne] ab c(2) by (cases b rule: rev_cases) auto
    then have "last (py_strip field) \<in> set b" using ab by (cases b rule: rev_cases) auto
    then have B: "\<exists>y \<in> set b. \<not> py_isspace y" using py_strip_ends(2) [OF ne] by blast
    have "2 \<le> length (py_split_ws (py_strip field))"
      using py_split_ws_inner [OF c(2) A B] ab by simp
    then show ?thesis using False py_split_ws_strip [of field] by simp
  qed
qed

lemma py_split_ws_record:
  assumes "ts \<noteq> []" and "list_all (\<lambda>x. \<not> py_isspace x) ts"
  shows "py_split_ws (ts @ [CHR 0x09] @ field @ [CHR 0x0A]) = ts # py_split_ws field"
  using py_split_ws_line [of "[]" "[CHR 0x0A]" ts field] assms
  by (simp add: py_isspace_def)

lemma sort_remote_folders_by_content_Inl_iff:
  assumes "remote_folder_list \<noteq> []"
      and "fst (run_ssh_command host (concat (map find_cmd_for remote_folder_list)) w)
             = (stdout, stderr)"
  shows "(\<exists>e. sort_remote_folders_by_content host remote_folder_list w = Inl e)
           = (stderr \<noteq> []
              \<or> (\<exists>chunk \<in> set (py_split_sep ''END_OF_COMMAND'' stdout).
                    py_strip chunk \<noteq> [] \<and> length (py_split_ws chunk) \<noteq> 2))"
proof (cases "stderr = []")
  case False
  with assms show ?thesis by (simp add: sort_remote_folders_by_content_def)
next
  case True
  have "(\<exists>e. sort_remote_folders_by_content host remote_folder_list w = Inl e)
          = (\<exists>e. parse_find_results host remote_folder_list
                    (py_split_sep ''END_OF_COMMAND'' stdout) = Inl e)"
    using assms True by (auto simp: sort_remote_folders_by_content_def split: sum.splits)
  then show ?thesis using True parse_find_results_Inl_iff by simp
qed

lemma sort_remote_folders_by_content_error_form:
  assumes "sort_remote_folders_by_content host remote_folder_list w = Inl e"
  shows "\<exists>ps. e = Raise UtilsException ErrorSortingOffsiteBackupList ps"
  using assms parse_find_results_error_form
  by (auto simp: sort_remote_folders_by_content_def split: if_splits prod.splits sum.splits)

text \<open>
  C10 (as the code has it). \<open>sort_remote_folders_by_content\<close> raises exactly when the
  error output of the ssh command is not empty or some piece of its standard output
  between two \<open>END_OF_COMMAND\<close> marks is not blank and does not split into exactly two
  whitespace-separated tokens, and what it raises is always the sorting error. A piece
  made of a whitespace-free timestamp, a tab, a field and a newline is such a piece
  exactly when the field, stripped of the whitespace around it, is empty or holds a
  whitespace character. Whitespace in a path therefore stops the sort only when it
  reaches the piece as whitespace inside the stripped field.
\<close>

theorem sort_remote_folders_by_content_raises_iff:
  assumes "remote_folder_list \<noteq> []"
      and "fst (run_ssh_command host (concat (map find_cmd_for remote_folder_list)) w)
             = (stdout, stderr)"
  shows "((\<exists>ps. sort_remote_folders_by_content host remote_folder_list w
                  = Inl (Raise UtilsException ErrorSortingOffsiteBackupList ps))
           = (stderr \<noteq> []
              \<or> (\<exists>chunk \<in> set (py_split_sep ''END_OF_COMMAND'' stdout).
                    py_strip chunk \<noteq> [] \<and> length (py_split_ws chunk) \<noteq> 2)))
       \<and> (\<forall>e. sort_remote_folders_by_content host remote_folder_list w = Inl e \<longrightarrow>
              (\<exists>ps. e = Raise UtilsException ErrorSortingOffsiteBackupList ps))
       \<and> (ts \<noteq> [] \<and> list_all (\<lambda>x. \<not> py_isspace x) ts \<longrightarrow>
            (length (py_split_ws (ts @ [CHR 0x09] @ field @ [CHR 0x0A])) \<noteq> 2)
              = (py_strip field = [] \<or> (\<exists>x \<in> set (py_strip field). py_isspace x)))"
proof (intro conjI allI impI)
  show "(\<exists>ps. sort_remote_folders_by_content host remote_folder_list w
                  = Inl (Raise UtilsException ErrorSortingOffsiteBackupList ps))
           = (stderr \<noteq> []
              \<or> (\<exists>chunk \<in> set (py_split_sep ''END_OF_COMMAND'' stdout).
                    py_strip chunk \<noteq> [] \<and> length (py_split_ws chunk) \<noteq> 2))"
    using sort_remote_folders_by_content_Inl_iff [OF assms]
          sort_remote_folders_by_content_error_form [of host remote_folder_list w]
    by metis
next
  fix e assume "sort_remote_folders_by_content host remote_folder_list w = Inl e"
  then show "\<exists>ps. e = Raise UtilsException ErrorSortingOffsiteBackupList ps"
    by (rule sort_remote_folders_by_content_error_form)
next
  assume h: "ts \<noteq> [] \<and> list_all (\<lambda>x. \<not> py_isspace x) ts"
  then have "py_split_ws (ts @ [CHR 0x09] @ field @ [CHR 0x0A]) = ts # py_split_ws field"
    using py_split_ws_record by blast
  then have "(length (py_split_ws (ts @ [CHR 0x09] @ field @ [CHR 0x0A])) \<noteq> 2)
               = (length (py_split_ws field) \<noteq> 1)" by simp
  also have "\<dots> = (py_strip field = [] \<or> (\<exists>x \<in> set (py_strip field). py_isspace x))"
    using py_split_ws_single_token [of field] by (auto simp: list_all_iff)
  finally show "(length (py_split_ws (ts @ [CHR 0x09] @ field @ [CHR 0x0A])) \<noteq> 2)
              = (py_strip field = [] \<or> (\<exists>x \<in> set (py_strip field). py_isspace x))" .
qed

theorem sort_remote_folders_by_content_raises_iff_witness:
  "sort_remote_folders_by_content ''user@host'' [''/r/b''] host_inner_space
     = Inl (Raise UtilsException ErrorSortingOffsiteBackupList
             [PStr ''user@host'', PStrs [''/r/b''],
              PStr (''2018-12-04+10:30:00.0000000000'' @ [CHR 0x09] @ ''/r/b/my file'')])
   \<and> py_split_sep ''END_OF_COMMAND''
        (''2018-12-04+10:30:00.0000000000'' @ [CHR 0x09] @ ''/r/b/my file''
           @ [CHR 0x0A] @ ''END_OF_COMMAND'' @ [CHR 0x0A])
       = [''2018-12-04+10:30:00.0000000000'' @ [CHR 0x09] @ ''/r/b/my file'' @ [CHR 0x0A],
          [CHR 0x0A]]
   \<and> py_split_ws (''2018-12-04+10:30:00.0000000000'' @ [CHR 0x09] @ ''/r/b/my file'' @ [CHR 0x0A])
       = [''2018-12-04+10:30:00.0000000000'', ''/r/b/my'', ''file'']
   \<and> py_strip ''/r/b/my file'' = ''/r/b/my file''"
  using sort_remote_folders_by_content_raises_iff
    [of "[''/r/b'']" "''user@host''" host_inner_space
        "''2018-12-04+10:30:00.0000000000'' @ [CHR 0x09] @ ''/r/b/my file''
           @ [CHR 0x0A] @ ''END_OF_COMMAND'' @ [CHR 0x0A]" "[]"
        "''2018-12-04+10:30:00.0000000000''" "''/r/b/my file''"]
  by (simp add: sort_remote_folders_by_content_def run_ssh_command_def host_inner_space_def
        py_strip_def py_isspace_def py_split_sep_def py_split_ws_def find_cmd_for_def)

text \<open>
  The oldest file's path ends in a space, and the sort returns an ordering.
\<close>

theorem sort_accepts_trailing_whitespace:
  "sort_remote_folders_by_content ''user@host'' [''/r/b''] host_trailing_space = Inr [''/r/b'']
   \<and> fst (ssh_exec host_trailing_space ''user@host'' (concat (map find_cmd_for [''/r/b''])))
       = ''2018-12-04+10:30:00.0000000000'' @ [CHR 0x09] @ ''/r/b/file ''
           @ [CHR 0x0A] @ ''END_OF_COMMAND'' @ [CHR 0x0A]
   \<and> py_isspace (last ''/r/b/file '')"
  by (simp add: sort_remote_folders_by_content_def run_ssh_command_def host_trailing_space_def
        py_strip_def py_isspace_def py_split_sep_def py_split_ws_def find_cmd_for_def
        dirname_def path_head_raw_def sort_reverse_by_timestamp_def)

subsection \<open>Retention\<close>

text \<open>
  C4 (the code differs). With a retention of one and two backups that are not empty, the
  oldest entry of the older backup \<open>/r/c/b1\<close> lies in a sub-directory,
  \<open>/r/c/b1/volume0/data\<close>. The path queued for removal is the directory of that
  entry, \<open>/r/c/b1/volume0\<close>, which is none of the customer's backups; the backup
  \<open>/r/c/b1\<close> itself is not queued. When the oldest entry is a file of the backup
  directory itself, the backup is queued.
\<close>

theorem retention_queues_subdirectory:
  "get_backup_dir_list_to_cleanup ''user@host'' 1 host_nested_oldest
      [(''CUSTOMER_0'', [''/r/c/b1'', ''/r/c/b2''])] []
     = Inr [''/r/c/b1/volume0'']
   \<and> ''/r/c/b1/volume0'' \<notin> set [''/r/c/b1'', ''/r/c/b2'']
   \<and> get_backup_dir_list_to_cleanup ''user@host'' 1 host_three_backups
      [(''CUSTOMER_0'', [''/r/c/b1'', ''/r/c/b2'', ''/r/c/b3''])] []
     = Inr [''/r/c/b1'']"
  by (simp add: cleanup_list_of_customer_def is_remote_folder_empty_def
        get_number_of_content_from_remote_path_def check_not_empty_def py_strip_def
        py_isspace_def run_ssh_command_def host_nested_oldest_def host_three_backups_def
        py_int_def is_digit_def digits_value_def sort_remote_folders_by_content_def
        py_split_sep_def py_split_ws_def find_cmd_for_def dirname_def path_head_raw_def
        sort_reverse_by_timestamp_def)

subsection \<open>Retries of a transfer\<close>

text \<open>
  C6 (the code differs). The first rsync run reports no transferred file of the single
  one, a second run would report it. Sending succeeds at the second try. Receiving the
  same file fails at once with the counts of the first run: \<open>receive\<close> has no loop.
\<close>

theorem receive_fails_where_send_retries:
  "transfer_file second_run_succeeds host_one_file ''/tmp/b/volume0.tar'' ''user@host:/r/b'' True
     = Inr (Some (stats_of ''1''))
   \<and> transfer_file second_run_succeeds host_one_file ''user@host:/r/b/volume0.tar''
        ''/restore/b'' True
     = Inl (Raise RsyncException RsyncTransferNumberFilesDiffer [PStr ''0'', PInt 1, PInt 1])"
  by (simp add: transfer_file_def send_def receive_def second_run_succeeds_def
        host_one_file_def stats_of_def NUMBER_TRIES_def check_not_empty_def py_strip_def
        py_isspace_def py_split_sep_def check_remote_path_exists_def run_ssh_command_def
        ssh_check_dir_command_def get_number_of_content_from_remote_path_def py_int_def
        is_digit_def digits_value_def path_join_def basename_def upt_rec)

text \<open>The retry count of the manager has no effect on \<open>receive\<close>.\<close>

lemma receive_ignores_retry: "receive env w (self\<lparr>retry := r\<rparr>) = receive env w self"
  by (simp add: receive_def Let_def split: sum.splits prod.splits option.splits)

subsection \<open>Removing and creating local paths\<close>


lemma map_of_filter_out: "p \<in> S \<Longrightarrow> map_of (filter (\<lambda>n. fst n \<notin> S) xs) p = None"
  by (induction xs) auto

lemma map_of_filter_keep: "p \<notin> S \<Longrightarrow> map_of (filter (\<lambda>n. fst n \<notin> S) xs) p = map_of xs p"
  by (induction xs) auto

lemma delete_entries_nil: "delete_entries [] fs = fs"
  by (simp add: delete_entries_def)

lemma filter_takeWhile_rest:
  "filter (\<lambda>q. q \<notin> set (takeWhile P xs)) xs = filter (\<lambda>q. q \<notin> set (takeWhile P xs)) (dropWhile P xs)"
proof -
  have "filter (\<lambda>q. q \<notin> set (takeWhile P xs)) (takeWhile P xs @ dropWhile P xs)
          = filter (\<lambda>q. q \<notin> set (takeWhile P xs)) (dropWhile P xs)"
    by (simp only: filter_append) simp
  then show ?thesis by simp
qed

lemma takeWhile_after_failed:
  "takeWhile P (filter (\<lambda>q. q \<notin> set (takeWhile P xs)) xs) = []"
proof (cases "dropWhile P xs")
  case Nil
  show ?thesis unfolding filter_takeWhile_rest Nil by simp
next
  case (Cons x rest)
  then have nx: "\<not> P x" using hd_dropWhile [of P xs] by simp
  then have "x \<notin> set (takeWhile P xs)" by (auto dest: set_takeWhileD)
  with nx show ?thesis unfolding filter_takeWhile_rest Cons by simp
qed

lemma filter_after_failed_length:
  "length (takeWhile P xs) < length xs \<Longrightarrow>
     filter (\<lambda>q. q \<notin> set (takeWhile P xs)) xs \<noteq> []"
proof -
  assume a: "length (takeWhile P xs) < length xs"
  then have "dropWhile P xs \<noteq> []"
    by (metis append_Nil2 less_irrefl takeWhile_dropWhile_id)
  then obtain x rest where c: "dropWhile P xs = x # rest" by (cases "dropWhile P xs") auto
  then have nx: "\<not> P x" using hd_dropWhile [of P xs] by simp
  then have "x \<notin> set (takeWhile P xs)" by (auto dest: set_takeWhileD)
  then show ?thesis unfolding filter_takeWhile_rest c by simp
qed

lemma below_after_delete:
  "filter (\<lambda>q. strict_prefix p q) (map fst (nodes (delete_entries S fs)))
     = filter (\<lambda>q. q \<notin> set S) (filter (\<lambda>q. strict_prefix p q) (map fst (nodes fs)))"
proof -
  have "filter P (map fst (filter (\<lambda>n. fst n \<notin> T) xs))
          = filter (\<lambda>q. q \<notin> T) (filter P (map fst xs))" for P T and xs :: "(path \<times> node_kind) list"
    by (induction xs) auto
  then show ?thesis by (simp add: delete_entries_def)
qed


lemma rmtree_twice:
  assumes "os_path_isdir fs p"
  shows "remove_path p (snd (shutil_rmtree p fs)) = shutil_rmtree p fs"
proof -
  define below where "below = filter (\<lambda>q. strict_prefix p q) (map fst (nodes fs))"
  define removable where "removable = takeWhile (\<lambda>q. q \<notin> set (refused fs)) below"
  show ?thesis
  proof (cases "length removable < length below \<or> p \<in> set (refused fs)")
    case False
    then have r: "shutil_rmtree p fs = (True, delete_entries (p # below) fs)"
      by (simp add: shutil_rmtree_def below_def removable_def Let_def)
    have "\<not> os_path_exists (delete_entries (p # below) fs) p"
      using map_of_filter_out [of p "set (p # below)" "nodes fs"]
      by (simp add: os_path_exists_def delete_entries_def)
    with r show ?thesis by (simp add: remove_path_def)
  next
    case True
    then have r: "shutil_rmtree p fs = (False, delete_entries removable fs)"
      by (simp add: shutil_rmtree_def below_def removable_def Let_def)
    define fs1 where "fs1 = delete_entries removable fs"
    have pn: "p \<notin> set removable"
      by (auto simp: removable_def below_def dest!: set_takeWhileD)
    then have same: "map_of (nodes fs1) p = map_of (nodes fs) p"
      using map_of_filter_keep [of p "set removable" "nodes fs"]
      by (simp add: fs1_def delete_entries_def)
    have ref: "refused fs1 = refused fs" by (simp add: fs1_def delete_entries_def)
    have below1: "filter (\<lambda>q. strict_prefix p q) (map fst (nodes fs1))
                    = filter (\<lambda>q. q \<notin> set removable) below"
      by (simp add: fs1_def below_after_delete below_def)
    have rem1: "takeWhile (\<lambda>q. q \<notin> set (refused fs)) (filter (\<lambda>q. q \<notin> set removable) below) = []"
      unfolding removable_def by (rule takeWhile_after_failed)
    have cond: "0 < length (filter (\<lambda>q. q \<notin> set removable) below) \<or> p \<in> set (refused fs)"
      using True filter_after_failed_length [of "\<lambda>q. q \<notin> set (refused fs)" below]
      by (auto simp: removable_def)
    have "shutil_rmtree p fs1 = (False, fs1)"
      using cond by (simp add: shutil_rmtree_def below1 ref rem1 Let_def delete_entries_nil)
    then show ?thesis
      using assms same r
      by (simp add: remove_path_def os_path_exists_def os_path_isdir_def fs1_def)
  qed
qed


lemma remove_path_twice: "remove_path p (snd (remove_path p fs)) = remove_path p fs"
proof (cases "os_path_exists fs p")
  case False
  then show ?thesis by (simp add: remove_path_def)
next
  case True
  show ?thesis
  proof (cases "os_path_isdir fs p")
    case d: True
    with True rmtree_twice [OF d] show ?thesis by (simp add: remove_path_def)
  next
    case d: False
    show ?thesis
    proof (cases "p \<in> set (refused fs)")
      case r: True
      with True d show ?thesis by (simp add: remove_path_def os_remove_def)
    next
      case r: False
      have "\<not> os_path_exists (delete_entries [p] fs) p"
        using map_of_filter_out [of p "set [p]" "nodes fs"]
        by (simp add: os_path_exists_def delete_entries_def)
      with True d r show ?thesis by (simp add: remove_path_def os_remove_def)
    qed
  qed
qed


lemma map_of_add_entry_keep:
  "map_of (nodes fs) r = Some k \<Longrightarrow> map_of (nodes (add_entry q k' fs)) r = Some k"
  by (simp add: add_entry_def map_add_Some_iff)

lemma map_of_add_entry_other:
  "r \<noteq> q \<Longrightarrow> map_of (nodes (add_entry q k' fs)) r = map_of (nodes fs) r"
  by (simp add: add_entry_def map_add_def split: option.splits)

lemma map_of_add_entry_new:
  "map_of (nodes fs) q = None \<Longrightarrow> map_of (nodes (add_entry q k' fs)) q = Some k'"
  by (simp add: add_entry_def map_add_def)

lemma makedirs_walk_keeps:
  "map_of (nodes fs) r = Some k \<Longrightarrow> map_of (nodes (snd (makedirs_walk made cs fs))) r = Some k"
  by (induction made cs fs rule: makedirs_walk.induct)
     (auto simp: map_of_add_entry_keep split: option.splits node_kind.splits)

lemma makedirs_walk_refused:
  "refused (snd (makedirs_walk made cs fs)) = refused fs"
  by (induction made cs fs rule: makedirs_walk.induct)
     (auto simp: add_entry_def split: option.splits node_kind.splits)

lemma makedirs_walk_fails_again:
  "makedirs_walk made cs fs = (False, fs1) \<Longrightarrow> makedirs_walk made cs fs1 = (False, fs1)"
proof (induction made cs fs rule: makedirs_walk.induct)
  case (1 made fs)
  then show ?case by simp
next
  case (2 made c cs fs)
  show ?case
  proof (cases "map_of (nodes fs) (made @ [c])")
    case None
    show ?thesis
    proof (cases "made @ [c] \<in> set (refused fs)")
      case True
      with None "2.prems" show ?thesis by simp
    next
      case False
      with None "2.prems" have w: "makedirs_walk (made @ [c]) cs (add_entry (made @ [c]) Directory fs) = (False, fs1)"
        by simp
      then have cs: "cs \<noteq> []" by (cases cs) auto
      have "map_of (nodes (add_entry (made @ [c]) Directory fs)) (made @ [c]) = Some Directory"
        using None by (rule map_of_add_entry_new)
      then have "map_of (nodes fs1) (made @ [c]) = Some Directory"
        using makedirs_walk_keeps [of "add_entry (made @ [c]) Directory fs" "made @ [c]" Directory "made @ [c]" cs] w
        by simp
      moreover have "makedirs_walk (made @ [c]) cs fs1 = (False, fs1)"
        using "2.IH"(1) [OF None False w] .
      ultimately show ?thesis using cs by simp
    qed
  next
    case (Some k)
    show ?thesis
    proof (cases k)
      case RegularFile
      with Some "2.prems" show ?thesis by simp
    next
      case Directory
      show ?thesis
      proof (cases "cs = []")
        case True
        with Some Directory "2.prems" show ?thesis by simp
      next
        case False
        with Some Directory "2.prems" have w: "makedirs_walk (made @ [c]) cs fs = (False, fs1)"
          by simp
        have "map_of (nodes fs1) (made @ [c]) = Some Directory"
          using makedirs_walk_keeps [of fs "made @ [c]" Directory "made @ [c]" cs] w Some Directory
          by simp
        moreover have "makedirs_walk (made @ [c]) cs fs1 = (False, fs1)"
          using "2.IH"(2) [OF _ _ False w] Some Directory by simp
        ultimately show ?thesis using False by simp
      qed
    qed
  qed
qed

lemma makedirs_walk_fail_no_leaf:
  "makedirs_walk made cs fs = (False, fs1) \<Longrightarrow> map_of (nodes fs) (made @ cs) = None \<Longrightarrow>
     map_of (nodes fs1) (made @ cs) = None"
proof (induction made cs fs rule: makedirs_walk.induct)
  case (1 made fs)
  then show ?case by simp
next
  case (2 made c cs fs)
  show ?case
  proof (cases "map_of (nodes fs) (made @ [c])")
    case None
    show ?thesis
    proof (cases "made @ [c] \<in> set (refused fs)")
      case True
      with None "2.prems" show ?thesis by simp
    next
      case False
      with None "2.prems" have w: "makedirs_walk (made @ [c]) cs (add_entry (made @ [c]) Directory fs) = (False, fs1)"
        by simp
      then have cs: "cs \<noteq> []" by (cases cs) auto
      then have "made @ c # cs \<noteq> made @ [c]" by simp
      then have "map_of (nodes (add_entry (made @ [c]) Directory fs)) ((made @ [c]) @ cs) = None"
        using "2.prems"(2) by (simp add: map_of_add_entry_other)
      then show ?thesis using "2.IH"(1) [OF None False w] by simp
    qed
  next
    case (Some k)
    show ?thesis
    proof (cases k)
      case RegularFile
      with Some "2.prems" show ?thesis by simp
    next
      case Directory
      show ?thesis
      proof (cases "cs = []")
        case True
        with Some Directory "2.prems" show ?thesis by simp
      next
        case False
        with Some Directory "2.prems" have w: "makedirs_walk (made @ [c]) cs fs = (False, fs1)"
          by simp
        show ?thesis using "2.IH"(2) [OF _ _ False w] Some Directory "2.prems"(2) by simp
      qed
    qed
  qed
qed

lemma makedirs_walk_success_leaf:
  "makedirs_walk made cs fs = (True, fs1) \<Longrightarrow> cs \<noteq> [] \<Longrightarrow>
     map_of (nodes fs1) (made @ cs) \<noteq> None"
proof (induction made cs fs rule: makedirs_walk.induct)
  case (1 made fs)
  then show ?case by simp
next
  case (2 made c cs fs)
  show ?case
  proof (cases "map_of (nodes fs) (made @ [c])")
    case None
    show ?thesis
    proof (cases "made @ [c] \<in> set (refused fs)")
      case True
      with None "2.prems" show ?thesis by simp
    next
      case False
      with None "2.prems" have w: "makedirs_walk (made @ [c]) cs (add_entry (made @ [c]) Directory fs) = (True, fs1)"
        by simp
      show ?thesis
      proof (cases "cs = []")
        case True
        with w None show ?thesis by (auto simp: map_of_add_entry_new)
      next
        case cs: False
        show ?thesis using "2.IH"(1) [OF None False w cs] by simp
      qed
    qed
  next
    case (Some k)
    show ?thesis
    proof (cases k)
      case RegularFile
      with Some "2.prems" show ?thesis by simp
    next
      case Directory
      show ?thesis
      proof (cases "cs = []")
        case True
        with Some Directory "2.prems" show ?thesis by simp
      next
        case False
        with Some Directory "2.prems" have w: "makedirs_walk (made @ [c]) cs fs = (True, fs1)"
          by simp
        show ?thesis using "2.IH"(2) [OF _ _ False w False] Some Directory by simp
      qed
    qed
  qed
qed

lemma create_path_twice: "create_path p (snd (create_path p fs)) = create_path p fs"
proof (cases "os_path_exists fs p")
  case True
  then show ?thesis by (simp add: create_path_def)
next
  case False
  obtain r fs1 where w: "makedirs_walk [] p fs = (r, fs1)" by (cases "makedirs_walk [] p fs")
  show ?thesis
  proof (cases r)
    case True
    show ?thesis
    proof (cases "p = []")
      case e: True
      then show ?thesis by (simp add: create_path_def os_makedirs_def)
    next
      case e: False
      have "os_path_exists fs1 p"
        using makedirs_walk_success_leaf [of "[]" p fs fs1] w True e
        by (simp add: os_path_exists_def)
      with False w True show ?thesis by (simp add: create_path_def os_makedirs_def)
    qed
  next
    case f: False
    have "\<not> os_path_exists fs1 p"
      using makedirs_walk_fail_no_leaf [of "[]" p fs fs1] w f False
      by (simp add: os_path_exists_def)
    moreover have "makedirs_walk [] p fs1 = (False, fs1)"
      using makedirs_walk_fails_again [of "[]" p fs fs1] w f by simp
    ultimately show ?thesis using False w f by (simp add: create_path_def os_makedirs_def)
  qed
qed

text \<open>
  C8. \<open>remove_path\<close> answers true on a path that does not exist and \<open>create_path\<close>
  answers true on a path that exists, both leaving the disk as it is; and a second call
  of either, right after the first, returns what the first returned and leaves the disk
  as the first left it, also after a first call that failed half-way.
\<close>

theorem fsys_helpers_idempotent:
  "(\<not> os_path_exists fs p \<longrightarrow> remove_path p fs = (True, fs))
   \<and> (os_path_exists fs p \<longrightarrow> create_path p fs = (True, fs))
   \<and> remove_path p (snd (remove_path p fs)) = remove_path p fs
   \<and> create_path p (snd (create_path p fs)) = create_path p fs"
  by (simp add: remove_path_twice create_path_twice) (simp add: remove_path_def create_path_def)

theorem fsys_helpers_idempotent_witness:
  "remove_path [''tmp'', ''c''] disk_with_refused_file = (True, disk_with_refused_file)
   \<and> create_path [''tmp'', ''b''] disk_with_refused_file = (True, disk_with_refused_file)
   \<and> fst (remove_path [''tmp'', ''b''] disk_with_refused_file) = False
   \<and> remove_path [''tmp'', ''b''] (snd (remove_path [''tmp'', ''b''] disk_with_refused_file))
       = remove_path [''tmp'', ''b''] disk_with_refused_file
   \<and> fst (create_path [''tmp'', ''c'', ''d''] disk_with_refused_file) = True
   \<and> create_path [''tmp'', ''c'', ''d'']
         (snd (create_path [''tmp'', ''c'', ''d''] disk_with_refused_file))
       = create_path [''tmp'', ''c'', ''d''] disk_with_refused_file"
  using fsys_helpers_idempotent [of disk_with_refused_file "[''tmp'', ''c'']"]
        fsys_helpers_idempotent [of disk_with_refused_file "[''tmp'', ''b'']"]
        fsys_helpers_idempotent [of disk_with_refused_file "[''tmp'', ''c'', ''d'']"]
  by (simp add: disk_with_refused_file_def os_path_exists_def)
     (simp add: remove_path_def create_path_def os_path_exists_def os_path_isdir_def
        shutil_rmtree_def os_makedirs_def add_entry_def delete_entries_def)

subsection \<open>The upload of a backup\<close>















lemma tar_path_of_snoc: "tar_path_of (tmp @ [V]) = tmp @ [V @ ''.tar'']"
  by (simp add: tar_path_of_def path_basename_def)

lemma process_volume_status:
  "process_volume env V (tmp @ [V]) fs = (vo, fs') \<Longrightarrow> status vo \<Longrightarrow>
     volume_path vo = tmp @ [V @ ''.tar'']"
  by (auto simp: process_volume_def processing_error_def get_empty_volume_output_def Let_def
        tar_path_of_snoc split: prod.splits bool.splits option.splits)

lemma set_alist_update: "set (AList.update k v al) \<subseteq> insert (k, v) (set al)"
  by (induction al) auto

lemma run_process_pool_spec:
  "run_process_pool env tmp tp s = s2 \<Longrightarrow>
     remote_backup_dir s2 = remote_backup_dir s
     \<and> (\<exists>new. transfer_pool s2 = transfer_pool s @ new
               \<and> (\<forall>t \<in> set new. fst t \<in> set tp \<and> status (snd t)
                                  \<and> volume_path (snd t) = tmp @ [fst t @ ''.tar'']))
     \<and> (\<forall>V \<in> set tp. V \<in> fst ` set (transfer_pool s2) \<or> dict_failed s2 V)
     \<and> (\<forall>V. dict_failed s V \<longrightarrow> dict_failed s2 V)
     \<and> (\<forall>kv \<in> set (backup_output_dict s2). kv \<in> set (backup_output_dict s) \<or> \<not> status (snd kv))"
proof (induction tp arbitrary: s)
  case Nil
  then show ?case by simp
next
  case (Cons V rest)
  obtain vo fs where pv: "process_volume env V (tmp @ [V]) (onsite s) = (vo, fs)"
    by (cases "process_volume env V (tmp @ [V]) (onsite s)")
  define s1 where "s1 = on_volume_ready (V, vo) (s\<lparr>onsite := fs\<rparr>)"
  from Cons.prems pv have run: "run_process_pool env tmp rest s1 = s2" by (simp add: s1_def)
  note ih = Cons.IH [OF run]
  show ?case
  proof (cases "status vo")
    case True
    then have s1: "remote_backup_dir s1 = remote_backup_dir s"
      "backup_output_dict s1 = backup_output_dict s"
      "transfer_pool s1 = transfer_pool s @ [(V, vo)]"
      by (simp_all add: s1_def on_volume_ready_def)
    have vp: "volume_path vo = tmp @ [V @ ''.tar'']"
      using process_volume_status [OF pv True] .
    from ih obtain new where new: "transfer_pool s2 = transfer_pool s1 @ new"
      "\<forall>t \<in> set new. fst t \<in> set rest \<and> status (snd t)
                                  \<and> volume_path (snd t) = tmp @ [fst t @ ''.tar'']" by blast
    have a: "\<exists>new. transfer_pool s2 = transfer_pool s @ new
               \<and> (\<forall>t \<in> set new. fst t \<in> set (V # rest) \<and> status (snd t)
                                  \<and> volume_path (snd t) = tmp @ [fst t @ ''.tar''])"
      by (rule exI [of _ "(V, vo) # new"]) (use new s1 True vp in auto)
    have b: "V \<in> fst ` set (transfer_pool s2)" using new(1) s1(3) by force
    have c: "dict_failed s W \<longrightarrow> dict_failed s2 W" for W
      using ih s1(2) by (simp add: dict_failed_def)
    show ?thesis using ih a b c s1 by auto
  next
    case False
    then have s1: "remote_backup_dir s1 = remote_backup_dir s"
      "backup_output_dict s1 = AList.update V vo (backup_output_dict s)"
      "transfer_pool s1 = transfer_pool s"
      by (simp_all add: s1_def on_volume_ready_def)
    have f: "dict_failed s1 V" using False s1(2) by (simp add: dict_failed_def update_conv')
    have g: "dict_failed s W \<longrightarrow> dict_failed s1 W" for W
      using False s1(2) by (auto simp: dict_failed_def update_conv')
    have h: "\<forall>kv \<in> set (backup_output_dict s1). kv \<in> set (backup_output_dict s) \<or> \<not> status (snd kv)"
      using False s1(2) set_alist_update [of V vo "backup_output_dict s"] by auto
    from ih obtain new where new: "transfer_pool s2 = transfer_pool s1 @ new"
      "\<forall>t \<in> set new. fst t \<in> set rest \<and> status (snd t)
                                  \<and> volume_path (snd t) = tmp @ [fst t @ ''.tar'']" by blast
    have a: "\<exists>new. transfer_pool s2 = transfer_pool s @ new
               \<and> (\<forall>t \<in> set new. fst t \<in> set (V # rest) \<and> status (snd t)
                                  \<and> volume_path (snd t) = tmp @ [fst t @ ''.tar''])"
      by (rule exI [of _ new]) (use new s1 in auto)
    have b: "dict_failed s2 V" using ih f by blast
    have c: "dict_failed s W \<longrightarrow> dict_failed s2 W" for W using ih g by blast
    have d: "\<forall>kv \<in> set (backup_output_dict s2). kv \<in> set (backup_output_dict s) \<or> \<not> status (snd kv)"
      using ih h by blast
    show ?thesis using ih a b c d s1 by auto
  qed
qed


lemma transfer_step:
  assumes "transfer_backup_volume_to_offsite env V vo p s = (t, s1)"
  shows "fst t = V
       \<and> (remote_backup_dir s1 = remote_backup_dir s \<and> \<not> status (snd t)
          \<or> remote_backup_dir s1 = remote_backup_dir s @ [path_basename p])
       \<and> transfer_pool s1 = transfer_pool s
       \<and> backup_output_dict s1 = backup_output_dict s"
  using assms
  by (auto simp: transfer_backup_volume_to_offsite_def Let_def
        split: option.splits prod.splits bool.splits)

lemma run_transfer_tasks_spec:
  assumes "\<forall>t \<in> set ts. volume_path (snd t) = tmp @ [fst t @ ''.tar'']"
      and "run_transfer_tasks env ts s = s'"
  shows "(\<exists>new. remote_backup_dir s' = remote_backup_dir s @ new
               \<and> set new \<subseteq> (\<lambda>t. fst t @ ''.tar'') ` set ts)
       \<and> (\<forall>V. on_remote_or_failed s V \<or> V \<in> fst ` set ts \<longrightarrow> on_remote_or_failed s' V)
       \<and> transfer_pool s' = transfer_pool s"
  using assms
proof (induction ts arbitrary: s)
  case Nil
  then show ?case by simp
next
  case (Cons task rest)
  obtain V vo where task: "task = (V, vo)" by (cases task)
  have vp: "volume_path vo = tmp @ [V @ ''.tar'']" using Cons.prems(1) task by simp
  obtain t s1 where tr: "transfer_backup_volume_to_offsite env V vo (volume_path vo) s = (t, s1)"
    by (cases "transfer_backup_volume_to_offsite env V vo (volume_path vo) s")
  define s2 where "s2 = on_volume_transferred t s1"
  from Cons.prems(2) task tr have run: "run_transfer_tasks env rest s2 = s'"
    by (simp add: s2_def)
  have wf: "\<forall>t \<in> set rest. volume_path (snd t) = tmp @ [fst t @ ''.tar'']"
    using Cons.prems(1) by simp
  note ih = Cons.IH [OF wf run]
  note st = transfer_step [OF tr]
  have bn: "path_basename (volume_path vo) = V @ ''.tar''"
    by (simp add: vp path_basename_def)
  have s2: "remote_backup_dir s2 = remote_backup_dir s1" "transfer_pool s2 = transfer_pool s1"
    "backup_output_dict s2 = AList.update V (snd t) (backup_output_dict s1)"
    using st by (cases t; simp add: s2_def on_volume_transferred_def)+
  have r: "remote_backup_dir s2 = remote_backup_dir s \<and> \<not> status (snd t)
           \<or> remote_backup_dir s2 = remote_backup_dir s @ [V @ ''.tar'']"
    using st s2 bn by auto
  have headV: "on_remote_or_failed s2 V"
    using r s2(3) by (auto simp: on_remote_or_failed_def dict_failed_def update_conv')
  have keep: "on_remote_or_failed s W \<longrightarrow> on_remote_or_failed s2 W" for W
  proof (cases "W = V")
    case True
    with headV show ?thesis by simp
  next
    case False
    then have "dict_failed s2 W = dict_failed s W"
      using s2(3) st by (simp add: dict_failed_def update_conv')
    with r show ?thesis by (auto simp: on_remote_or_failed_def)
  qed
  from ih obtain new where new: "remote_backup_dir s' = remote_backup_dir s2 @ new"
    "set new \<subseteq> (\<lambda>t. fst t @ ''.tar'') ` set rest" by blast
  have a: "\<exists>new. remote_backup_dir s' = remote_backup_dir s @ new
               \<and> set new \<subseteq> (\<lambda>t. fst t @ ''.tar'') ` set (task # rest)"
  proof (cases "remote_backup_dir s2 = remote_backup_dir s")
    case True
    show ?thesis by (rule exI [of _ new]) (use new True in auto)
  next
    case False
    with r have "remote_backup_dir s2 = remote_backup_dir s @ [V @ ''.tar'']" by simp
    then show ?thesis
      by (intro exI [of _ "(V @ ''.tar'') # new"]) (use new task in auto)
  qed
  have b: "on_remote_or_failed s W \<or> W \<in> fst ` set (task # rest) \<longrightarrow> on_remote_or_failed s' W" for W
    using ih keep headV task by auto
  have c: "transfer_pool s' = transfer_pool s" using ih s2 st by simp
  show ?case using a b c by blast
qed



lemma validate_already_processed_volumes_Inr:
  assumes "validate_already_processed_volumes env tmp vols files s = (Inr (fl, vl, tp), s1)"
  shows "fl = files \<and> vl = vols
       \<and> (\<exists>uploaded. get_list_processed_vols_names_offsite env s = Inr uploaded
             \<and> partition_volumes uploaded tmp vols [] s = (tp, s1))"
  using assms
  by (auto simp: validate_already_processed_volumes_def split: if_splits sum.splits prod.splits)

lemma validate_already_processed_volumes_Inl:
  assumes "validate_already_processed_volumes env tmp vols files s = (Inl e, s1)"
  shows "s1 = s"
  using assms
  by (auto simp: validate_already_processed_volumes_def split: if_splits sum.splits prod.splits)


lemma metadata_archive_name:
  "path_basename (tar_path_of (tmp @ [BACKUP_META_FILE @ ''.gz.gpg'']))
     = archived_metadata_name"
  by (simp add: tar_path_of_def path_basename_def archived_metadata_name_def)

lemma metadata_step_skip:
  "f \<in> set (remote_backup_dir s) \<or> (SUCCESS_FLAG_FILE \<noteq> f \<and> BACKUP_META_FILE \<noteq> f) \<Longrightarrow>
     process_backup_metadata_files env tmp (f # rest) acc s
       = process_backup_metadata_files env tmp rest acc s"
  by auto

lemma metadata_step_flag:
  "SUCCESS_FLAG_FILE \<notin> set (remote_backup_dir s) \<Longrightarrow>
     process_backup_metadata_files env tmp (SUCCESS_FLAG_FILE # rest) acc s
       = (case rsync_transfer env SUCCESS_FLAG_FILE of
            Some e \<Rightarrow> (Inl e, s)
          | None \<Rightarrow> process_backup_metadata_files env tmp rest (acc @ [SUCCESS_FLAG_FILE])
                      (s\<lparr>remote_backup_dir := remote_backup_dir s @ [SUCCESS_FLAG_FILE]\<rparr>))"
  by simp

lemma metadata_step_meta:
  assumes "BACKUP_META_FILE \<notin> set (remote_backup_dir s)"
  shows "(\<exists>e s1. process_backup_metadata_files env tmp (BACKUP_META_FILE # rest) acc s = (Inl e, s1)
                 \<and> remote_backup_dir s1 = remote_backup_dir s)
       \<or> (\<exists>s3. process_backup_metadata_files env tmp (BACKUP_META_FILE # rest) acc s
                 = process_backup_metadata_files env tmp rest
                     (acc @ [archived_metadata_name]) s3
              \<and> remote_backup_dir s3 = remote_backup_dir s @ [archived_metadata_name])"
proof -
  have A: "path_basename (tar_path_of (tmp @ [BACKUP_META_FILE @ ''.gz.gpg''])) = archived_metadata_name"
    using metadata_archive_name [of tmp] by simp
  have ne: "SUCCESS_FLAG_FILE \<noteq> BACKUP_META_FILE"
    by (simp add: SUCCESS_FLAG_FILE_def BACKUP_META_FILE_def)
  show ?thesis
  proof (cases "encrypt_metadata env")
    case (Some e)
    with assms ne show ?thesis by simp
  next
    case e: None
    show ?thesis
    proof (cases "archive_metadata env")
      case (Some e')
      with assms ne e show ?thesis by (simp add: Let_def)
    next
      case a: None
      define fs2 where "fs2 = add_entry (tar_path_of (tmp @ [BACKUP_META_FILE @ ''.gz.gpg''])) RegularFile
                 (add_entry (tmp @ [BACKUP_META_FILE @ ''.gz.gpg'']) RegularFile (onsite s))"
      obtain ok fs where rm: "remove_path (tmp @ [BACKUP_META_FILE @ ''.gz.gpg'']) fs2 = (ok, fs)"
        by (cases "remove_path (tmp @ [BACKUP_META_FILE @ ''.gz.gpg'']) fs2")
      show ?thesis
      proof (cases ok)
        case False
        with assms ne e a rm show ?thesis by (simp add: Let_def fs2_def)
      next
        case True
        show ?thesis
        proof (cases "rsync_transfer env archived_metadata_name")
          case (Some e')
          with assms ne e a rm True A show ?thesis by (simp add: Let_def fs2_def)
        next
          case None
          show ?thesis
            apply (rule disjI2)
            apply (rule exI [of _ "s\<lparr>onsite := fs, remote_backup_dir := remote_backup_dir s @ [archived_metadata_name]\<rparr>"])
            using assms ne e a rm True A None
            apply (simp add: Let_def fs2_def)
            done
        qed
      qed
    qed
  qed
qed


lemma backup_ok_once:
  "SUCCESS_FLAG_FILE \<notin> set new1 \<Longrightarrow>
     \<forall>pre post. SUCCESS_FLAG_FILE # new1 = pre @ SUCCESS_FLAG_FILE # post \<longrightarrow> SUCCESS_FLAG_FILE \<notin> set post"
  by (auto simp: Cons_eq_append_conv)

lemma backup_ok_later:
  "a \<noteq> SUCCESS_FLAG_FILE \<Longrightarrow>
   \<forall>pre post. new1 = pre @ SUCCESS_FLAG_FILE # post \<longrightarrow> SUCCESS_FLAG_FILE \<notin> set post \<Longrightarrow>
     \<forall>pre post. a # new1 = pre @ SUCCESS_FLAG_FILE # post \<longrightarrow> SUCCESS_FLAG_FILE \<notin> set post"
  by (auto simp: Cons_eq_append_conv)

lemma process_backup_metadata_files_remote:
  "process_backup_metadata_files env tmp files acc s = (r, s') \<Longrightarrow>
     \<exists>new. remote_backup_dir s' = remote_backup_dir s @ new
          \<and> set new \<subseteq> {SUCCESS_FLAG_FILE, archived_metadata_name}
          \<and> (SUCCESS_FLAG_FILE \<in> set (remote_backup_dir s) \<longrightarrow> SUCCESS_FLAG_FILE \<notin> set new)
          \<and> (\<forall>pre post. new = pre @ SUCCESS_FLAG_FILE # post \<longrightarrow> SUCCESS_FLAG_FILE \<notin> set post)"
proof (induction files arbitrary: acc s)
  case Nil
  then show ?case by simp
next
  case (Cons f rest)
  consider (skip) "f \<in> set (remote_backup_dir s) \<or> (SUCCESS_FLAG_FILE \<noteq> f \<and> BACKUP_META_FILE \<noteq> f)"
    | (flag) "f \<notin> set (remote_backup_dir s)" "f = SUCCESS_FLAG_FILE"
    | (meta) "f \<notin> set (remote_backup_dir s)" "f = BACKUP_META_FILE"
    by blast
  then show ?case
  proof cases
    case skip
    have "process_backup_metadata_files env tmp rest acc s = (r, s')"
      by (rule trans [OF metadata_step_skip [OF skip, symmetric] Cons.prems])
    from Cons.IH [OF this] show ?thesis .
  next
    case flag
    have f: "f = SUCCESS_FLAG_FILE" using flag(2) .
    have ns: "SUCCESS_FLAG_FILE \<notin> set (remote_backup_dir s)" using flag by simp
    have whole: "process_backup_metadata_files env tmp (SUCCESS_FLAG_FILE # rest) acc s = (r, s')"
      using Cons.prems flag(2) by (simp only:)
    have step: "(case rsync_transfer env SUCCESS_FLAG_FILE of
            Some e \<Rightarrow> (Inl e, s)
          | None \<Rightarrow> process_backup_metadata_files env tmp rest (acc @ [SUCCESS_FLAG_FILE])
                      (s\<lparr>remote_backup_dir := remote_backup_dir s @ [SUCCESS_FLAG_FILE]\<rparr>))
          = (r, s')"
      by (rule trans [OF metadata_step_flag [OF ns, symmetric] whole])
    show ?thesis
    proof (cases "rsync_transfer env SUCCESS_FLAG_FILE")
      case (Some e)
      with step have "s' = s" by simp
      then show ?thesis by simp
    next
      case None
      define s1 where "s1 = s\<lparr>remote_backup_dir := remote_backup_dir s @ [SUCCESS_FLAG_FILE]\<rparr>"
      from step None
      have "process_backup_metadata_files env tmp rest (acc @ [SUCCESS_FLAG_FILE]) s1 = (r, s')"
        by (simp add: s1_def)
      from Cons.IH [OF this] obtain new1 where
        n1: "remote_backup_dir s' = remote_backup_dir s1 @ new1"
            "set new1 \<subseteq> {SUCCESS_FLAG_FILE, archived_metadata_name}"
            "SUCCESS_FLAG_FILE \<in> set (remote_backup_dir s1) \<longrightarrow> SUCCESS_FLAG_FILE \<notin> set new1"
        by blast
      have r1: "remote_backup_dir s1 = remote_backup_dir s @ [SUCCESS_FLAG_FILE]"
        by (simp add: s1_def)
      then have nin: "SUCCESS_FLAG_FILE \<notin> set new1" using n1(3) by simp
      have notin: "SUCCESS_FLAG_FILE \<notin> set (remote_backup_dir s)" using flag(1) f by simp
      show ?thesis
        by (rule exI [of _ "SUCCESS_FLAG_FILE # new1"])
           (use n1(1,2) r1 notin backup_ok_once [OF nin] in simp)
    qed
  next
    case meta
    have nm: "BACKUP_META_FILE \<notin> set (remote_backup_dir s)" using meta by simp
    have whole: "process_backup_metadata_files env tmp (BACKUP_META_FILE # rest) acc s = (r, s')"
      using Cons.prems meta(2) by (simp only:)
    from metadata_step_meta [OF nm, of env tmp rest acc]
    consider (fail) e s1 where
        "process_backup_metadata_files env tmp (BACKUP_META_FILE # rest) acc s = (Inl e, s1)"
        "remote_backup_dir s1 = remote_backup_dir s"
      | (go) s3 where
        "process_backup_metadata_files env tmp (BACKUP_META_FILE # rest) acc s
           = process_backup_metadata_files env tmp rest (acc @ [archived_metadata_name]) s3"
        "remote_backup_dir s3 = remote_backup_dir s @ [archived_metadata_name]"
      by blast
    then show ?thesis
    proof cases
      case fail
      from trans [OF whole [symmetric] fail(1)] have "s' = s1" by simp
      with fail(2) have "remote_backup_dir s' = remote_backup_dir s" by simp
      then show ?thesis by simp
    next
      case go
      have "process_backup_metadata_files env tmp rest (acc @ [archived_metadata_name]) s3
              = (r, s')" by (rule trans [OF go(1) [symmetric] whole])
      from Cons.IH [OF this] obtain new1 where
        n1: "remote_backup_dir s' = remote_backup_dir s3 @ new1"
            "set new1 \<subseteq> {SUCCESS_FLAG_FILE, archived_metadata_name}"
            "SUCCESS_FLAG_FILE \<in> set (remote_backup_dir s3) \<longrightarrow> SUCCESS_FLAG_FILE \<notin> set new1"
            "\<forall>pre post. new1 = pre @ SUCCESS_FLAG_FILE # post \<longrightarrow> SUCCESS_FLAG_FILE \<notin> set post"
        by blast
      have ne: "archived_metadata_name \<noteq> SUCCESS_FLAG_FILE"
        by (simp add: archived_metadata_name_def SUCCESS_FLAG_FILE_def BACKUP_META_FILE_def)
      have keep: "SUCCESS_FLAG_FILE \<in> set (remote_backup_dir s) \<longrightarrow> SUCCESS_FLAG_FILE \<notin> set new1"
        using n1(3) go(2) by simp
      show ?thesis
        by (rule exI [of _ "archived_metadata_name # new1"])
           (use n1(1,2) go(2) keep ne backup_ok_later [OF ne n1(4)] in auto)
    qed
  qed
qed

lemma process_bur_descriptors_remote:
  "process_bur_descriptors env d tmp s = (r, s') \<Longrightarrow>
     remote_backup_dir s' = remote_backup_dir s \<or> remote_backup_dir s' = remote_backup_dir s @ [d]"
  by (auto simp: process_bur_descriptors_def Let_def split: if_splits option.splits prod.splits bool.splits)


lemma partition_volumes_pool:
  "partition_volumes uploaded tmp vols acc s = (tp, s') \<Longrightarrow>
     remote_backup_dir s' = remote_backup_dir s
     \<and> backup_output_dict s' = backup_output_dict s
     \<and> (\<exists>newp. transfer_pool s' = transfer_pool s @ newp
               \<and> (\<forall>t \<in> set newp. fst t \<in> set vols
                      \<and> volume_path (snd t) = tmp @ [fst t @ ''.tar'']))"
proof (induction vols arbitrary: acc s)
  case Nil
  then show ?case by simp
next
  case (Cons V rest)
  consider (up) "V \<in> set uploaded"
    | (tar) "V \<notin> set uploaded" "os_path_exists (onsite s) (tmp @ [V @ ''.tar''])"
    | (enc) "V \<notin> set uploaded" "\<not> os_path_exists (onsite s) (tmp @ [V @ ''.tar''])"
    by blast
  then show ?case
  proof cases
    case up
    with Cons.prems have "partition_volumes uploaded tmp rest acc s = (tp, s')" by simp
    from Cons.IH [OF this] show ?thesis by auto
  next
    case tar
    define s1 where "s1 = on_volume_ready (V, get_empty_volume_output (tmp @ [V @ ''.tar'']) True) s"
    have s1: "remote_backup_dir s1 = remote_backup_dir s"
      "backup_output_dict s1 = backup_output_dict s"
      "transfer_pool s1 = transfer_pool s @ [(V, get_empty_volume_output (tmp @ [V @ ''.tar'']) True)]"
      by (simp_all add: s1_def on_volume_ready_def get_empty_volume_output_def)
    from Cons.prems tar have "partition_volumes uploaded tmp rest acc s1 = (tp, s')"
      by (simp add: s1_def PROCESSED_VOLUME_ENDS_WITH_def)
    from Cons.IH [OF this] obtain newp where
      n: "remote_backup_dir s' = remote_backup_dir s1" "backup_output_dict s' = backup_output_dict s1"
         "transfer_pool s' = transfer_pool s1 @ newp"
         "\<forall>t \<in> set newp. fst t \<in> set rest \<and> volume_path (snd t) = tmp @ [fst t @ ''.tar'']"
      by auto
    show ?thesis
      using n s1
      by (intro conjI exI [of _ "(V, get_empty_volume_output (tmp @ [V @ ''.tar'']) True) # newp"])
         (auto simp: get_empty_volume_output_def)
  next
    case enc
    define s1 where "s1 = (if os_path_exists (onsite s) (tmp @ [V])
               then s\<lparr>onsite := snd (remove_path (tmp @ [V]) (onsite s))\<rparr> else s)"
    have s1: "remote_backup_dir s1 = remote_backup_dir s"
      "backup_output_dict s1 = backup_output_dict s"
      "transfer_pool s1 = transfer_pool s"
      by (simp_all add: s1_def)
    from Cons.prems enc have "partition_volumes uploaded tmp rest (acc @ [V]) s1 = (tp, s')"
      by (simp add: s1_def PROCESSED_VOLUME_ENDS_WITH_def Let_def)
    from Cons.IH [OF this] obtain newp where
      n: "remote_backup_dir s' = remote_backup_dir s1" "backup_output_dict s' = backup_output_dict s1"
         "transfer_pool s' = transfer_pool s1 @ newp"
         "\<forall>t \<in> set newp. fst t \<in> set rest \<and> volume_path (snd t) = tmp @ [fst t @ ''.tar'']"
      by auto
    show ?thesis
      using n s1 by (intro conjI exI [of _ newp]) auto
  qed
qed

lemma partition_volumes_to_process:
  "partition_volumes uploaded tmp vols acc s = (tp, s') \<Longrightarrow> set tp \<subseteq> set acc \<union> set vols"
proof (induction vols arbitrary: acc s)
  case Nil
  then show ?case by simp
next
  case (Cons V rest)
  from Cons.prems obtain acc1 s1 where
    "partition_volumes uploaded tmp rest acc1 s1 = (tp, s')" "set acc1 \<subseteq> set acc \<union> {V}"
    by (auto simp: Let_def split: if_splits)
  with Cons.IH [of acc1 s1] show ?case by auto
qed

lemma process_backup_volumes_remote:
  assumes run: "process_backup_volumes env tmp vols files s = (r, s3)"
  shows "\<exists>new. remote_backup_dir s3 = remote_backup_dir s @ new
               \<and> set new \<subseteq> (\<lambda>V. V @ ''.tar'') ` set vols"
proof (cases "check_local_disk_space_for_upload (free_disk_space env) (size_on_disk env)")
  case (Inl e)
  with run show ?thesis by (auto simp: process_backup_volumes_def)
next
  case (Inr ok)
  define s0 where "s0 = s\<lparr>backup_output_dict := [], transfer_pool := []\<rparr>"
  obtain v s1 where val: "validate_already_processed_volumes env tmp vols files s0 = (v, s1)"
    by (cases "validate_already_processed_volumes env tmp vols files s0")
  show ?thesis
  proof (cases v)
    case (Inl e)
    with val have "s1 = s0" using validate_already_processed_volumes_Inl by blast
    with run Inr val Inl show ?thesis by (auto simp: process_backup_volumes_def s0_def)
  next
    case vr: (Inr triple)
    obtain fl vl tp where triple: "triple = (fl, vl, tp)" by (cases triple)
    from validate_already_processed_volumes_Inr [of env tmp vols files s0 fl vl tp s1] val vr triple
    obtain uploaded where
      part: "partition_volumes uploaded tmp vols [] s0 = (tp, s1)" by auto
    note ps = partition_volumes_pool [OF part]
    have tpv: "set tp \<subseteq> set vols" using partition_volumes_to_process [OF part] by simp
    define s2 where "s2 = run_process_pool env tmp tp s1"
    note pp = run_process_pool_spec [of env tmp tp s1 s2, OF s2_def [symmetric]]
    define s3' where "s3' = run_transfer_pool env s2"
    have s3': "run_transfer_tasks env (transfer_pool s2) (s2\<lparr>transfer_pool := []\<rparr>) = s3'"
      by (simp add: s3'_def run_transfer_pool_def)
    from pp obtain newt where newt: "transfer_pool s2 = transfer_pool s1 @ newt"
      "\<forall>t \<in> set newt. fst t \<in> set tp \<and> status (snd t)
                                  \<and> volume_path (snd t) = tmp @ [fst t @ ''.tar'']" by blast
    from ps obtain newp where newp: "transfer_pool s1 = transfer_pool s0 @ newp"
      "\<forall>t \<in> set newp. fst t \<in> set vols \<and> volume_path (snd t) = tmp @ [fst t @ ''.tar'']"
      by blast
    have pool2: "transfer_pool s2 = newp @ newt" using newt(1) newp(1) by (simp add: s0_def)
    have wf: "\<forall>t \<in> set (transfer_pool s2). volume_path (snd t) = tmp @ [fst t @ ''.tar'']"
      using pool2 newt(2) newp(2) by auto
    have names2: "\<forall>t \<in> set (transfer_pool s2). fst t \<in> set vols"
      using pool2 newt(2) newp(2) tpv by auto
    note tt = run_transfer_tasks_spec [OF wf s3']
    from tt obtain new where new: "remote_backup_dir s3' = remote_backup_dir s2 @ new"
      "set new \<subseteq> (\<lambda>t. fst t @ ''.tar'') ` set (transfer_pool s2)" by auto
    have rem: "remote_backup_dir s2 = remote_backup_dir s"
      using pp ps by (simp add: s0_def)
    have "(\<lambda>t. fst t @ ''.tar'') ` set (transfer_pool s2) \<subseteq> (\<lambda>V. V @ ''.tar'') ` set vols"
      using names2 by (auto simp: image_iff)
    then have sub: "set new \<subseteq> (\<lambda>V. V @ ''.tar'') ` set vols" using new(2) by blast
    have a: "\<exists>new. remote_backup_dir s3' = remote_backup_dir s @ new
               \<and> set new \<subseteq> (\<lambda>V. V @ ''.tar'') ` set vols"
      by (rule exI [of _ new]) (use new(1) rem sub in simp)
    have "s3 = s3'"
      using run Inr val vr triple
      by (cases "check_backup_output_errors s3'")
         (simp_all add: process_backup_volumes_def s0_def s2_def s3'_def Let_def)
    with a show ?thesis by simp
  qed
qed

lemma split_in_later_part:
  "xs @ ys = pre @ a # post \<Longrightarrow> a \<notin> set xs \<Longrightarrow> \<exists>pre'. pre = xs @ pre' \<and> ys = pre' @ a # post"
  by (induction xs arbitrary: pre) (auto simp: Cons_eq_append_conv)

lemma split_in_earlier_part:
  "ys @ zs = pre @ a # post \<Longrightarrow> a \<notin> set zs \<Longrightarrow> \<exists>post'. post = post' @ zs \<and> ys = pre @ a # post'"
proof (induction pre arbitrary: ys)
  case Nil
  then show ?case by (cases ys) auto
next
  case (Cons p pre)
  then show ?case by (cases ys) auto
qed

lemma tar_name_not_reserved:
  "V @ ''.tar'' \<noteq> SUCCESS_FLAG_FILE"
  "V @ ''.tar'' \<noteq> BUR_FILE_LIST_DESCRIPTOR_FILE_NAME"
  "V @ ''.tar'' \<noteq> BUR_VOLUME_LIST_DESCRIPTOR_FILE_NAME"
  by (auto simp: SUCCESS_FLAG_FILE_def BUR_FILE_LIST_DESCRIPTOR_FILE_NAME_def
        BUR_VOLUME_LIST_DESCRIPTOR_FILE_NAME_def dest: arg_cong [of _ _ last])

lemma reserved_names_differ:
  "SUCCESS_FLAG_FILE \<noteq> BUR_FILE_LIST_DESCRIPTOR_FILE_NAME"
  "SUCCESS_FLAG_FILE \<noteq> BUR_VOLUME_LIST_DESCRIPTOR_FILE_NAME"
  "SUCCESS_FLAG_FILE \<noteq> archived_metadata_name"
  "BUR_FILE_LIST_DESCRIPTOR_FILE_NAME \<noteq> archived_metadata_name"
  "BUR_VOLUME_LIST_DESCRIPTOR_FILE_NAME \<noteq> archived_metadata_name"
  by (simp_all add: SUCCESS_FLAG_FILE_def BUR_FILE_LIST_DESCRIPTOR_FILE_NAME_def
        BUR_VOLUME_LIST_DESCRIPTOR_FILE_NAME_def archived_metadata_name_def BACKUP_META_FILE_def)

text \<open>What reaches the remote directory after the volumes: the tail of a run.\<close>

lemma process_backup_tail:
  assumes "process_backup env tmp vols files s = (r, s')"
  shows "\<exists>s3 nm nd rv. process_backup_volumes env tmp vols files s = (rv, s3)
           \<and> remote_backup_dir s' = remote_backup_dir s3 @ nm @ nd
           \<and> ((\<exists>e. rv = Inl e) \<longrightarrow> nm = [] \<and> nd = [])
           \<and> set nm \<subseteq> {SUCCESS_FLAG_FILE, archived_metadata_name}
           \<and> (SUCCESS_FLAG_FILE \<in> set (remote_backup_dir s3) \<longrightarrow> SUCCESS_FLAG_FILE \<notin> set nm)
           \<and> (\<forall>pre post. nm = pre @ SUCCESS_FLAG_FILE # post \<longrightarrow> SUCCESS_FLAG_FILE \<notin> set post)
           \<and> set nd \<subseteq> {BUR_FILE_LIST_DESCRIPTOR_FILE_NAME, BUR_VOLUME_LIST_DESCRIPTOR_FILE_NAME}"
proof -
  obtain rv s3 where v: "process_backup_volumes env tmp vols files s = (rv, s3)"
    by (cases "process_backup_volumes env tmp vols files s")
  show ?thesis
  proof (cases rv)
    case (Inl e)
    with assms v have "s' = s3" by (simp add: process_backup_def)
    with v Inl show ?thesis
      by (intro exI [of _ s3] exI [of _ "[]"] exI [of _ rv]) simp
  next
    case (Inr pair)
    obtain fl vl where pair: "pair = (fl, vl)" by (cases pair)
    obtain rm s4 where m: "process_backup_metadata_files env tmp fl [] s3 = (rm, s4)"
      by (cases "process_backup_metadata_files env tmp fl [] s3")
    from process_backup_metadata_files_remote [OF m] obtain nm where
      nm: "remote_backup_dir s4 = remote_backup_dir s3 @ nm"
          "set nm \<subseteq> {SUCCESS_FLAG_FILE, archived_metadata_name}"
          "SUCCESS_FLAG_FILE \<in> set (remote_backup_dir s3) \<longrightarrow> SUCCESS_FLAG_FILE \<notin> set nm"
          "\<forall>pre post. nm = pre @ SUCCESS_FLAG_FILE # post \<longrightarrow> SUCCESS_FLAG_FILE \<notin> set post"
      by auto
    have "\<exists>nd. remote_backup_dir s' = remote_backup_dir s4 @ nd
              \<and> set nd \<subseteq> {BUR_FILE_LIST_DESCRIPTOR_FILE_NAME, BUR_VOLUME_LIST_DESCRIPTOR_FILE_NAME}"
    proof (cases rm)
      case (Inl e)
      with assms v Inr pair m have "s' = s4" by (simp add: process_backup_def)
      then show ?thesis by (intro exI [of _ "[]"]) simp
    next
      case mr: (Inr names)
      obtain r5 s5 where d1: "process_bur_descriptors env BUR_FILE_LIST_DESCRIPTOR_FILE_NAME tmp s4 = (r5, s5)"
        by (cases "process_bur_descriptors env BUR_FILE_LIST_DESCRIPTOR_FILE_NAME tmp s4")
      note g1 = process_bur_descriptors_remote [OF d1]
      show ?thesis
      proof (cases r5)
        case (Inl e)
        with assms v Inr pair m mr d1 have "s' = s5" by (simp add: process_backup_def)
        with g1 show ?thesis
          by (cases "remote_backup_dir s5 = remote_backup_dir s4")
             (auto intro: exI [of _ "[]"] exI [of _ "[BUR_FILE_LIST_DESCRIPTOR_FILE_NAME]"])
      next
        case r5r: (Inr b)
        obtain r6 s6 where d2: "process_bur_descriptors env BUR_VOLUME_LIST_DESCRIPTOR_FILE_NAME tmp s5 = (r6, s6)"
          by (cases "process_bur_descriptors env BUR_VOLUME_LIST_DESCRIPTOR_FILE_NAME tmp s5")
        note g2 = process_bur_descriptors_remote [OF d2]
        have "s' = s6"
          using assms v Inr pair m mr d1 r5r d2 by (cases r6) (simp_all add: process_backup_def)
        with g1 g2 show ?thesis
          apply (cases "remote_backup_dir s5 = remote_backup_dir s4";
                 cases "remote_backup_dir s6 = remote_backup_dir s5")
          apply (auto intro: exI [of _ "[]"] exI [of _ "[BUR_FILE_LIST_DESCRIPTOR_FILE_NAME]"]
                      exI [of _ "[BUR_VOLUME_LIST_DESCRIPTOR_FILE_NAME]"]
                      exI [of _ "[BUR_FILE_LIST_DESCRIPTOR_FILE_NAME, BUR_VOLUME_LIST_DESCRIPTOR_FILE_NAME]"])
          done
      qed
    qed
    then obtain nd where nd: "remote_backup_dir s' = remote_backup_dir s4 @ nd"
      "set nd \<subseteq> {BUR_FILE_LIST_DESCRIPTOR_FILE_NAME, BUR_VOLUME_LIST_DESCRIPTOR_FILE_NAME}"
      by auto
    show ?thesis
      using v nm nd Inr
      by (intro exI [of _ s3] exI [of _ nm] exI [of _ nd] exI [of _ rv]) simp
  qed
qed

lemma tar_names_not_reserved:
  assumes "set nv \<subseteq> (\<lambda>V. V @ ''.tar'') ` A"
  shows "SUCCESS_FLAG_FILE \<notin> set nv"
    and "BUR_FILE_LIST_DESCRIPTOR_FILE_NAME \<notin> set nv"
    and "BUR_VOLUME_LIST_DESCRIPTOR_FILE_NAME \<notin> set nv"
proof -
  have "\<exists>V. x = V @ ''.tar''" if "x \<in> set nv" for x
    using assms that by (auto simp: subset_iff image_iff)
  then show "SUCCESS_FLAG_FILE \<notin> set nv"
    and "BUR_FILE_LIST_DESCRIPTOR_FILE_NAME \<notin> set nv"
    and "BUR_VOLUME_LIST_DESCRIPTOR_FILE_NAME \<notin> set nv"
    using tar_name_not_reserved by metis+
qed


text \<open>
  C3 (as the code has it). In every run of \<open>process_backup\<close> no volume archive reaches
  the remote directory after \<open>BACKUP_OK\<close>: what arrives after it is at most the archived
  \<open>backup.metadata\<close> (when the directory lists it after the flag) and the two
  descriptors, which are written once the loop over the metadata files has ended.
\<close>

theorem after_backup_ok_only_metadata_and_descriptors:
  assumes run: "process_backup env temp_backup_path volume_names file_names s = (r, s')"
  shows "\<exists>new. remote_backup_dir s' = remote_backup_dir s @ new
           \<and> (\<forall>pre post. new = pre @ SUCCESS_FLAG_FILE # post \<longrightarrow>
                 set post \<subseteq> {archived_metadata_name, BUR_FILE_LIST_DESCRIPTOR_FILE_NAME,
                              BUR_VOLUME_LIST_DESCRIPTOR_FILE_NAME})"
proof -
  from process_backup_tail [OF run] obtain s3 nm nd rv where
    v: "process_backup_volumes env temp_backup_path volume_names file_names s = (rv, s3)"
    and tail: "remote_backup_dir s' = remote_backup_dir s3 @ nm @ nd"
    and nm: "set nm \<subseteq> {SUCCESS_FLAG_FILE, archived_metadata_name}"
            "\<forall>pre post. nm = pre @ SUCCESS_FLAG_FILE # post \<longrightarrow> SUCCESS_FLAG_FILE \<notin> set post"
    and nd: "set nd \<subseteq> {BUR_FILE_LIST_DESCRIPTOR_FILE_NAME, BUR_VOLUME_LIST_DESCRIPTOR_FILE_NAME}"
    by blast
  from process_backup_volumes_remote [OF v] obtain nv where
    nv: "remote_backup_dir s3 = remote_backup_dir s @ nv"
        "set nv \<subseteq> (\<lambda>V. V @ ''.tar'') ` set volume_names"
    by blast
  have s_nv: "SUCCESS_FLAG_FILE \<notin> set nv" using tar_names_not_reserved(1) [OF nv(2)] .
  have s_nd: "SUCCESS_FLAG_FILE \<notin> set nd" using nd reserved_names_differ(1,2) by auto
  have after: "set post \<subseteq> {archived_metadata_name, BUR_FILE_LIST_DESCRIPTOR_FILE_NAME,
                              BUR_VOLUME_LIST_DESCRIPTOR_FILE_NAME}"
    if dec: "nv @ nm @ nd = pre @ SUCCESS_FLAG_FILE # post" for pre post
  proof -
    from split_in_later_part [OF dec s_nv] obtain pre' where
      rest: "nm @ nd = pre' @ SUCCESS_FLAG_FILE # post" by blast
    from split_in_earlier_part [OF rest s_nd] obtain post' where
      post: "post = post' @ nd" and mid: "nm = pre' @ SUCCESS_FLAG_FILE # post'" by blast
    from nm(2) mid have "SUCCESS_FLAG_FILE \<notin> set post'" by blast
    moreover have "set post' \<subseteq> set nm" using mid by auto
    ultimately have "set post' \<subseteq> {archived_metadata_name}" using nm(1) by auto
    with post nd show ?thesis by auto
  qed
  have total: "remote_backup_dir s' = remote_backup_dir s @ (nv @ nm @ nd)"
    using tail nv(1) by simp
  show ?thesis
    by (rule exI [of _ "nv @ nm @ nd"]) (use total after in blast)
qed






lemma first_upload_run:
  "process_backup all_tools_succeed [''tmp''] [''volume0'']
       [''BACKUP_OK'', ''backup.metadata''] first_upload
     = (Inr [(''volume0'',
              \<lparr>volume_path = [''tmp'', ''volume0.tar''], status = True, output_message = []\<rparr>)],
        \<lparr>remote_backup_dir =
           [''volume0.tar'', ''BACKUP_OK'', ''backup.metadata.gz.gpg.tar'',
            ''bur_file_list_descriptor.dat'', ''bur_volume_list_descriptor.dat''],
         onsite = \<lparr>nodes = [([''tmp''], Directory),
                            ([''tmp'', ''backup.metadata.gz.gpg.tar''], RegularFile)],
                   refused = []\<rparr>,
         transfer_pool = [],
         backup_output_dict =
           [(''volume0'',
             \<lparr>volume_path = [''tmp'', ''volume0.tar''], status = True,
                output_message = []\<rparr>)]\<rparr>)"
  by code_simp


theorem after_backup_ok_only_metadata_and_descriptors_witness:
  "remote_backup_dir (snd (process_backup all_tools_succeed [''tmp''] [''volume0'']
       [''BACKUP_OK'', ''backup.metadata''] first_upload))
     = remote_backup_dir first_upload
       @ [''volume0.tar''] @ SUCCESS_FLAG_FILE
       # [archived_metadata_name, BUR_FILE_LIST_DESCRIPTOR_FILE_NAME,
          BUR_VOLUME_LIST_DESCRIPTOR_FILE_NAME]"
  using after_backup_ok_only_metadata_and_descriptors
    [where volume_names = "[''volume0'']"
       and env = all_tools_succeed and temp_backup_path = "[''tmp'']"
       and file_names = "[''BACKUP_OK'', ''backup.metadata'']" and s = first_upload
       and r = "fst (process_backup all_tools_succeed [''tmp''] [''volume0'']
                  [''BACKUP_OK'', ''backup.metadata''] first_upload)"
       and s' = "snd (process_backup all_tools_succeed [''tmp''] [''volume0'']
                  [''BACKUP_OK'', ''backup.metadata''] first_upload)"]
    first_upload_run
  by (simp add: first_upload_def SUCCESS_FLAG_FILE_def archived_metadata_name_def
        BACKUP_META_FILE_def BUR_FILE_LIST_DESCRIPTOR_FILE_NAME_def
        BUR_VOLUME_LIST_DESCRIPTOR_FILE_NAME_def)

text \<open>
  A first upload of one volume with every tool succeeding: three files reach the remote
  directory after \<open>BACKUP_OK\<close>, the two descriptors among them.
\<close>

theorem backup_ok_is_not_last:
  "remote_backup_dir (snd (process_backup all_tools_succeed [''tmp''] [''volume0'']
       [''BACKUP_OK'', ''backup.metadata''] first_upload))
     = [''volume0.tar'', ''BACKUP_OK'', ''backup.metadata.gz.gpg.tar'',
        ''bur_file_list_descriptor.dat'', ''bur_volume_list_descriptor.dat'']
   \<and> remote_backup_dir first_upload = []"
  by (simp add: first_upload_run) (simp add: first_upload_def)


end
